theory Spec2Isabelle
  imports Main
begin

section \<open>The calendar event model of tools_for_todoist/models/event.py\<close>

text \<open>
  The class \<open>CalendarEvent\<close> wraps a raw record of the calendar source (a Python dict
  read from JSON). The raw record is modelled as a record whose optional keys are
  options; a key the code reads with \<open>raw[k]\<close> and that is absent raises KeyError,
  a key read with \<open>raw.get(k, d)\<close> falls back to \<open>d\<close>.
\<close>

datatype error = KeyError | TypeError | AttributeError | AssertionError
  | ValueError | OverflowError

definition bind :: "error + 'a \<Rightarrow> ('a \<Rightarrow> error + 'b) \<Rightarrow> error + 'b" where
  "bind m f = (case m of Inl e \<Rightarrow> Inl e | Inr v \<Rightarrow> f v)"

subsection \<open>Raw records\<close>

text \<open>An entry of the \<open>attendees\<close> list: the keys \<open>self\<close>, \<open>resource\<close>, \<open>responseStatus\<close>.\<close>

record attendee =
  att_self :: "bool option"
  att_resource :: "bool option"
  att_responseStatus :: "string option"

text \<open>
  A \<open>start\<close>, \<open>end\<close> or \<open>originalStartTime\<close> record: the keys \<open>date\<close>, \<open>dateTime\<close>,
  \<open>timeZone\<close>. The text of \<open>date\<close> and \<open>dateTime\<close> is read by dateutil's \<open>parse\<close>; the
  model holds what it denotes: the day (days since 1970-01-01) and the instant (seconds
  since 1970-01-01T00:00:00Z).
\<close>

record raw_time =
  rt_date :: "int option"
  rt_dateTime :: "int option"
  rt_timeZone :: "string option"

type_synonym addr = nat

text \<open>
  The lines of \<open>recurrence\<close> are Python strings that a regular expression reads, and
  \<open>\d\<close> matches every decimal digit of Unicode: such a text is the list of its code
  points. \<open>text_of\<close> gives the text of a literal.
\<close>

type_synonym ustring = "nat list"

definition text_of :: "string \<Rightarrow> ustring" where
  "text_of s = map of_char s"

text \<open>
  The raw event. \<open>extendedProperties\<close> is a nested dict that the code copies and
  mutates, so the record holds its address in the store (see below).
\<close>

record raw_event =
  raw_id :: string
  raw_status :: "string option"
  raw_summary :: "string option"
  raw_start :: "raw_time option"
  raw_end :: "raw_time option"
  raw_originalStartTime :: "raw_time option"
  raw_recurrence :: "ustring list option"
  raw_attendees :: "attendee list option"
  raw_extendedProperties :: "addr option"

text \<open>The calendar object: only its \<open>default_timezone\<close> is read by the event.\<close>

record google_calendar =
  default_timezone :: string

text \<open>
  The object itself. \<open>exceptions\<close> is a dict in insertion order, from the id of an
  exception instance to its event; \<open>recurring_event\<close>, the back-reference of an
  exception to its master, is held as the master's id.
\<close>

datatype calendar_event = CalendarEvent
  (google_calendar: google_calendar)
  (exceptions: "(string \<times> calendar_event) list")
  (recurring_event: "string option")
  (raw: raw_event)
  (event_id: string)
  (summary: "string option")
  (extended_properties: "addr option")

subsection \<open>Attendee predicates\<close>

definition attendees :: "calendar_event \<Rightarrow> attendee list" where
  "attendees e = (case raw_attendees (raw e) of None \<Rightarrow> [] | Some xs \<Rightarrow> xs)"

text \<open>\<open>x.get(k, False)\<close> on a flag.\<close>

definition get_flag :: "bool option \<Rightarrow> bool" where
  "get_flag f = (case f of None \<Rightarrow> False | Some b \<Rightarrow> b)"

text \<open>\<open>x['responseStatus']\<close>: KeyError when the key is absent.\<close>

definition response_of :: "attendee \<Rightarrow> error + string" where
  "response_of x = (case att_responseStatus x of None \<Rightarrow> Inl KeyError | Some s \<Rightarrow> Inr s)"

definition is_cancelled :: "calendar_event \<Rightarrow> error + bool" where
  "is_cancelled e =
     (case raw_status (raw e) of None \<Rightarrow> Inl KeyError | Some s \<Rightarrow> Inr (s = ''cancelled''))"

definition response_status :: "calendar_event \<Rightarrow> error + string option" where
  "response_status e =
     (case filter (\<lambda>x. get_flag (att_self x)) (attendees e) of
        [] \<Rightarrow> Inr None
      | self_attendee # _ \<Rightarrow> bind (response_of self_attendee) (\<lambda>s. Inr (Some s)))"

definition is_declined_by_me :: "calendar_event \<Rightarrow> error + bool" where
  "is_declined_by_me e = bind (response_status e) (\<lambda>s. Inr (s = Some ''declined''))"

text \<open>
  The list comprehension under \<open>all\<close> is built in full before \<open>all\<close> reads it, so one
  other attendee without \<open>responseStatus\<close> raises whatever the others answered.
\<close>

definition other_attendees :: "calendar_event \<Rightarrow> attendee list" where
  "other_attendees e =
     filter (\<lambda>x. \<not> get_flag (att_self x) \<and> \<not> get_flag (att_resource x)) (attendees e)"

definition is_declined_by_others :: "calendar_event \<Rightarrow> error + bool" where
  "is_declined_by_others e =
     (if list_ex (\<lambda>x. att_responseStatus x = None) (other_attendees e) then Inl KeyError
      else Inr (length (other_attendees e) > 0
                \<and> list_all (\<lambda>x. att_responseStatus x = Some ''declined'') (other_attendees e)))"

subsection \<open>Dates, datetimes and time zones\<close>

text \<open>
  A value of Python's \<open>datetime\<close> module as the code meets it: a \<open>date\<close> (days since
  1970-01-01), a naive \<open>datetime\<close> (seconds of wall-clock time since 1970-01-01T00:00:00)
  or an aware \<open>datetime\<close>, which holds the same wall-clock fields, its tzinfo object and
  the flag \<open>fold\<close> that tells the second pass of a repeated hour from the first.

  A tzinfo object is the zone that \<open>gettz\<close> has for a name of the time zone database
  (one object for a name), or a fixed offset from UTC in seconds: \<open>tzutc\<close> is
  \<open>Fixed 0\<close>, and the zone that \<open>astimezone(None)\<close> makes for the system's local time
  is the fixed offset in force at the instant converted.
\<close>

datatype tzinfo = TZ string | Fixed int

datatype pytime = Date int | Naive int | Aware int tzinfo bool

text \<open>
  What the program takes from outside the source files:
  \<^item> \<open>zone_known name\<close>: whether the time zone database has the name; \<open>gettz\<close> returns
    None for a name it does not have;
  \<^item> \<open>utcoffset name w fold\<close>: the method \<open>utcoffset\<close> of that zone, the offset from
    UTC in seconds at the wall-clock time \<open>w\<close> read with \<open>fold\<close>;
  \<^item> \<open>fromutc name t\<close>: the method \<open>fromutc\<close> of that zone, the wall-clock time and
    the fold of the instant \<open>t\<close> (seconds since 1970-01-01T00:00:00Z);
  \<^item> \<open>local_utcoffset n\<close>: the offset of the system's zone at the naive wall-clock time
    \<open>n\<close> (\<open>astimezone\<close> reads a naive datetime as system local time), and
    \<open>local_offset_at t\<close>: its offset at the instant \<open>t\<close>;
  \<^item> \<open>unicode_decimal c\<close>: the value of the code point \<open>c\<close>, beyond ASCII, as a
    decimal digit of the Unicode database, if it is one;
  \<^item> \<open>rrulestr text dtstart\<close>: the rule object that dateutil builds from the recurrence
    text, or the error of its parser. The rule is a generator that may never end:
    \<open>rule i\<close> is the wall-clock time of the \<open>i\<close>-th datetime it yields, and None when
    it has ended before. Each of them is a datetime with the tzinfo of \<open>dtstart\<close>
    (see \<open>rule_instance\<close>);
  \<^item> \<open>datetime_as dt target\<close>: \<open>utils.datetime_as\<close>, which brings \<open>dt\<close> to the shape of
    \<open>target\<close>.
\<close>

record env =
  zone_known :: "string \<Rightarrow> bool"
  utcoffset :: "string \<Rightarrow> int \<Rightarrow> bool \<Rightarrow> int"
  fromutc :: "string \<Rightarrow> int \<Rightarrow> int \<times> bool"
  local_utcoffset :: "int \<Rightarrow> int"
  local_offset_at :: "int \<Rightarrow> int"
  unicode_decimal :: "nat \<Rightarrow> nat option"
  rrulestr :: "ustring \<Rightarrow> pytime \<Rightarrow> error + (nat \<Rightarrow> int option)"
  datetime_as :: "pytime \<Rightarrow> pytime \<Rightarrow> pytime"

text \<open>
  dateutil's \<open>gettz\<close>: the zone object of a name that the database has (the same object
  whenever the name is asked for again), None for any other name. A name that \<open>gettz\<close>
  answers with the system's zone, as it does for the empty name, counts here as a name
  that the database does not have: the conversion goes to the system's zone for both.
\<close>

definition gettz :: "env \<Rightarrow> string \<Rightarrow> tzinfo option" where
  "gettz env name = (if zone_known env name then Some (TZ name) else None)"

text \<open>The methods \<open>utcoffset\<close> and \<open>fromutc\<close> of a tzinfo object.\<close>

fun tz_utcoffset :: "env \<Rightarrow> tzinfo \<Rightarrow> int \<Rightarrow> bool \<Rightarrow> int" where
  "tz_utcoffset env (TZ name) w fd = utcoffset env name w fd"
| "tz_utcoffset env (Fixed seconds) w fd = seconds"

fun tz_fromutc :: "env \<Rightarrow> tzinfo \<Rightarrow> int \<Rightarrow> pytime" where
  "tz_fromutc env (TZ name) t = (case fromutc env name t of (w, fd) \<Rightarrow> Aware w (TZ name) fd)"
| "tz_fromutc env (Fixed seconds) t = Aware (t + seconds) (Fixed seconds) False"

text \<open>The instant of an aware datetime: its wall-clock time less its offset.\<close>

definition utc_of :: "env \<Rightarrow> int \<Rightarrow> tzinfo \<Rightarrow> bool \<Rightarrow> int" where
  "utc_of env w tz fd = w - tz_utcoffset env tz w fd"

text \<open>
  Python's comparisons (\<open>datetime_richcompare\<close>). \<open><\<close> and \<open><=\<close> are defined between
  two dates, two naive datetimes or two aware datetimes, and raise TypeError otherwise.
  Two aware datetimes that share their tzinfo object are ordered by their wall-clock
  fields, and \<open>fold\<close> is not read; with two tzinfo objects they are ordered by their
  instants. \<open>==\<close> never raises and is False across the three kinds; with two tzinfo
  objects it is also False when the offset of either side depends on its \<open>fold\<close>.
  Fixed offsets of one value are one tzinfo here, whether Python has one object for
  them or two: at one fixed offset the wall-clock times are in the order of the
  instants, and no offset depends on a fold.
  A set finds a member by its hash and then by \<open>==\<close>, and values that are \<open>==\<close> have
  one hash, so \<open>x in s\<close> holds when some member of \<open>s\<close> is \<open>==\<close> to \<open>x\<close>.
\<close>

fun py_lt :: "env \<Rightarrow> pytime \<Rightarrow> pytime \<Rightarrow> error + bool" where
  "py_lt env (Date a) (Date b) = Inr (a < b)"
| "py_lt env (Naive a) (Naive b) = Inr (a < b)"
| "py_lt env (Aware a za fa) (Aware b zb fb) =
     Inr (if za = zb then a < b else utc_of env a za fa < utc_of env b zb fb)"
| "py_lt env _ _ = Inl TypeError"

fun py_le :: "env \<Rightarrow> pytime \<Rightarrow> pytime \<Rightarrow> error + bool" where
  "py_le env (Date a) (Date b) = Inr (a \<le> b)"
| "py_le env (Naive a) (Naive b) = Inr (a \<le> b)"
| "py_le env (Aware a za fa) (Aware b zb fb) =
     Inr (if za = zb then a \<le> b else utc_of env a za fa \<le> utc_of env b zb fb)"
| "py_le env _ _ = Inl TypeError"

definition py_gt :: "env \<Rightarrow> pytime \<Rightarrow> pytime \<Rightarrow> error + bool" where
  "py_gt env a b = py_lt env b a"

definition fold_matters :: "env \<Rightarrow> int \<Rightarrow> tzinfo \<Rightarrow> bool" where
  "fold_matters env w tz = (tz_utcoffset env tz w True \<noteq> tz_utcoffset env tz w False)"

fun py_eq :: "env \<Rightarrow> pytime \<Rightarrow> pytime \<Rightarrow> bool" where
  "py_eq env (Date a) (Date b) = (a = b)"
| "py_eq env (Naive a) (Naive b) = (a = b)"
| "py_eq env (Aware a za fa) (Aware b zb fb) =
     (if za = zb then a = b
      else utc_of env a za fa = utc_of env b zb fb
           \<and> \<not> fold_matters env a za \<and> \<not> fold_matters env b zb)"
| "py_eq env _ _ = False"

text \<open>\<open>x in s\<close> for a set \<open>s\<close> of such values.\<close>

definition py_in :: "env \<Rightarrow> pytime \<Rightarrow> pytime list \<Rightarrow> bool" where
  "py_in env x s = list_ex (py_eq env x) s"

text \<open>
  Modelled from the spec: \<open>tools_for_todoist/utils.py\<close> (\<open>is_allday\<close>, \<open>ensure_datetime\<close>,
  \<open>datetime_as\<close>) is not among the source files. The spec: all-day events carry
  calendar-date values with no time-of-day or timezone component; timed events always
  carry a timezone-resolved instant. \<open>is_allday\<close> tells a date from a datetime, and
  \<open>ensure_datetime\<close> makes the datetime that \<open>rrulestr\<close> needs as \<open>dtstart\<close>: midnight of a
  date, a datetime unchanged. \<open>datetime_as\<close> is a parameter of the model (see \<open>env\<close>).
\<close>

fun is_allday :: "pytime \<Rightarrow> bool" where
  "is_allday (Date _) = True"
| "is_allday _ = False"

fun ensure_datetime :: "pytime \<Rightarrow> pytime" where
  "ensure_datetime (Date d) = Naive (d * 86400)"
| "ensure_datetime dt = dt"

text \<open>
  The methods \<open>.date()\<close> and \<open>.astimezone(tz)\<close>: a \<open>date\<close> object has neither. The date
  of a datetime is that of its wall-clock fields. \<open>astimezone\<close> returns the datetime
  itself when \<open>tz\<close> is its own tzinfo; otherwise it takes the instant (a naive datetime
  is read as system local time) and asks \<open>tz\<close>, or with None the fixed offset of the
  system's zone at that instant, for the wall-clock time.
\<close>

fun date_method :: "pytime \<Rightarrow> error + pytime" where
  "date_method (Date _) = Inl AttributeError"
| "date_method (Naive n) = Inr (Date (n div 86400))"
| "date_method (Aware w _ _) = Inr (Date (w div 86400))"

definition to_zone :: "env \<Rightarrow> int \<Rightarrow> tzinfo option \<Rightarrow> pytime" where
  "to_zone env t tz =
     (case tz of
        None \<Rightarrow> tz_fromutc env (Fixed (local_offset_at env t)) t
      | Some z \<Rightarrow> tz_fromutc env z t)"

fun astimezone :: "env \<Rightarrow> pytime \<Rightarrow> tzinfo option \<Rightarrow> error + pytime" where
  "astimezone env (Date _) tz = Inl AttributeError"
| "astimezone env (Naive n) tz = Inr (to_zone env (n - local_utcoffset env n) tz)"
| "astimezone env (Aware w mytz fd) tz =
     Inr (if tz = Some mytz then Aware w mytz fd
          else to_zone env (utc_of env w mytz fd) tz)"

text \<open>\<open>x.tzinfo\<close> of a datetime; None for a naive one, no such attribute on a date.\<close>

fun tzinfo_of :: "pytime \<Rightarrow> error + tzinfo option" where
  "tzinfo_of (Date _) = Inl AttributeError"
| "tzinfo_of (Naive _) = Inr None"
| "tzinfo_of (Aware _ tz _) = Inr (Some tz)"

subsection \<open>Start, end and original start\<close>

definition get_timezone :: "env \<Rightarrow> calendar_event \<Rightarrow> raw_time \<Rightarrow> tzinfo option" where
  "get_timezone env e rs =
     (let zone = (case rt_timeZone rs of
                            None \<Rightarrow> default_timezone (google_calendar e)
                          | Some z \<Rightarrow> z);
          zone = (if zone = ''UTC'' then ''Europe/London'' else zone)
      in gettz env zone)"

text \<open>
  \<open>parse\<close> gives the instant of \<open>dateTime\<close> as an aware datetime, here in UTC;
  \<open>astimezone\<close> reads no more of it than the instant.
\<close>

definition parse_start :: "env \<Rightarrow> calendar_event \<Rightarrow> raw_time \<Rightarrow> error + pytime" where
  "parse_start env e rs =
     (case rt_date rs of
        Some d \<Rightarrow> Inr (Date d)
      | None \<Rightarrow> (case rt_dateTime rs of
                   None \<Rightarrow> Inl KeyError
                 | Some t \<Rightarrow> astimezone env (Aware t (Fixed 0) False) (get_timezone env e rs)))"

definition start :: "env \<Rightarrow> calendar_event \<Rightarrow> error + pytime" where
  "start env e =
     (case raw_start (raw e) of None \<Rightarrow> Inl KeyError | Some r \<Rightarrow> parse_start env e r)"

definition end_time :: "env \<Rightarrow> calendar_event \<Rightarrow> error + pytime" where
  "end_time env e =
     (case raw_end (raw e) of None \<Rightarrow> Inl KeyError | Some r \<Rightarrow> parse_start env e r)"

definition get_original_start :: "env \<Rightarrow> calendar_event \<Rightarrow> error + pytime" where
  "get_original_start env e =
     (case raw_originalStartTime (raw e) of
        None \<Rightarrow> Inl KeyError
      | Some r \<Rightarrow> parse_start env e r)"

subsection \<open>Text: substring test, the UNTIL pattern, decimal numbers\<close>

text \<open>\<open>needle in hay\<close> on strings.\<close>

fun contains :: "ustring \<Rightarrow> ustring \<Rightarrow> bool" where
  "contains needle [] = (needle = [])"
| "contains needle (c # cs) =
     (take (length needle) (c # cs) = needle \<or> contains needle cs)"

text \<open>
  The decimal digits: \<open>0\<close> to \<open>9\<close> of ASCII, the code points 48 to 57, and those of the
  other scripts. \<open>\d\<close> matches them, and \<open>int\<close> reads them by their value.
\<close>

definition decimal :: "env \<Rightarrow> nat \<Rightarrow> nat option" where
  "decimal env c =
     (if c < 128 then (if 48 \<le> c \<and> c \<le> 57 then Some (c - 48) else None)
      else unicode_decimal env c)"

definition is_digit :: "env \<Rightarrow> nat \<Rightarrow> bool" where
  "is_digit env c = (decimal env c \<noteq> None)"

text \<open>
  The pattern \<open>UNTIL=(\d{8}T\d{6}Z)\<close> tried at the head of a text: group 1 when it
  matches. A match is 22 characters long.
\<close>

definition until_match :: "env \<Rightarrow> ustring \<Rightarrow> ustring option" where
  "until_match env s =
     (let g = take 16 (drop 6 s)
      in if take 6 s = text_of ''UNTIL='' \<and> length g = 16
            \<and> list_all (is_digit env) (take 8 g) \<and> g ! 8 = of_char CHR ''T''
            \<and> list_all (is_digit env) (take 6 (drop 9 g)) \<and> g ! 15 = of_char CHR ''Z''
         then Some g else None)"

text \<open>\<open>re.search\<close>: group 1 of the leftmost match.\<close>

fun re_search :: "env \<Rightarrow> ustring \<Rightarrow> ustring option" where
  "re_search env [] = None"
| "re_search env (c # cs) =
     (case until_match env (c # cs) of Some g \<Rightarrow> Some g | None \<Rightarrow> re_search env cs)"

text \<open>\<open>re.sub\<close>: every match, from the left and without overlap, becomes \<open>repl\<close>.\<close>

fun re_sub :: "env \<Rightarrow> ustring \<Rightarrow> ustring \<Rightarrow> ustring" where
  "re_sub env repl [] = []"
| "re_sub env repl (c # cs) =
     (case until_match env (c # cs) of
        Some g \<Rightarrow> repl @ re_sub env repl (drop 21 cs)
      | None \<Rightarrow> c # re_sub env repl cs)"

text \<open>The number that a run of decimal digits denotes.\<close>

definition digit_val :: "env \<Rightarrow> nat \<Rightarrow> int" where
  "digit_val env c = (case decimal env c of None \<Rightarrow> 0 | Some v \<Rightarrow> int v)"

definition number :: "env \<Rightarrow> ustring \<Rightarrow> int" where
  "number env s = foldl (\<lambda>a c. 10 * a + digit_val env c) 0 s"

definition digit_char :: "nat \<Rightarrow> char" where
  "digit_char n = ''0123456789'' ! n"

fun str_nat :: "nat \<Rightarrow> string" where
  "str_nat n = (if n < 10 then [digit_char n] else str_nat (n div 10) @ [digit_char (n mod 10)])"

text \<open>\<open>str(i)\<close> and the format \<open>{i:02}\<close> of an integer.\<close>

definition str_int :: "int \<Rightarrow> string" where
  "str_int i = (if i < 0 then CHR ''-'' # str_nat (nat (- i)) else str_nat (nat i))"

definition pad2 :: "int \<Rightarrow> string" where
  "pad2 i = (let s = str_int i in if length s < 2 then CHR ''0'' # s else s)"

subsection \<open>The proleptic Gregorian calendar of Python's datetime\<close>

text \<open>
  \<open>_ymd2ord\<close> and \<open>_ord2ymd\<close> of the standard library: the ordinal of 0001-01-01 is 1,
  that of 1970-01-01 is 719163, that of 9999-12-31 is 3652059.
\<close>

definition is_leap :: "int \<Rightarrow> bool" where
  "is_leap y = (y mod 4 = 0 \<and> (y mod 100 \<noteq> 0 \<or> y mod 400 = 0))"

definition days_before_year :: "int \<Rightarrow> int" where
  "days_before_year y = (y - 1) * 365 + (y - 1) div 4 - (y - 1) div 100 + (y - 1) div 400"

text \<open>The tables \<open>_DAYS_IN_MONTH\<close> and \<open>_DAYS_BEFORE_MONTH\<close>, with the leap day added.\<close>

definition month_length :: "bool \<Rightarrow> int \<Rightarrow> int" where
  "month_length leap m =
     [31, 28, 31, 30, 31, 30, 31, 31, 30, 31, 30, 31] ! nat (m - 1)
     + (if m = 2 \<and> leap then 1 else 0)"

definition month_offset :: "bool \<Rightarrow> int \<Rightarrow> int" where
  "month_offset leap m =
     [0, 31, 59, 90, 120, 151, 181, 212, 243, 273, 304, 334] ! nat (m - 1)
     + (if m > 2 \<and> leap then 1 else 0)"

definition days_in_month :: "int \<Rightarrow> int \<Rightarrow> int" where
  "days_in_month y m = month_length (is_leap y) m"

definition days_before_month :: "int \<Rightarrow> int \<Rightarrow> int" where
  "days_before_month y m = month_offset (is_leap y) m"

definition ymd2ord :: "int \<Rightarrow> int \<Rightarrow> int \<Rightarrow> int" where
  "ymd2ord y m d = days_before_year y + days_before_month y m + d"

definition ord2ymd :: "int \<Rightarrow> int \<times> int \<times> int" where
  "ord2ymd ord =
     (let n = ord - 1;
          n400 = n div 146097; n = n mod 146097;
          year = n400 * 400 + 1;
          n100 = n div 36524; n = n mod 36524;
          n4 = n div 1461; n = n mod 1461;
          n1 = n div 365; n = n mod 365;
          year = year + n100 * 100 + n4 * 4 + n1
      in if n1 = 4 \<or> n100 = 4 then (year - 1, 12, 31)
         else
           let leapyear = (n1 = 3 \<and> (n4 \<noteq> 24 \<or> n100 = 3));
               month = (n + 50) div 32;
               preceding = month_offset leapyear month
           in if preceding > n
              then (year, month - 1,
                    n - (preceding - month_length leapyear (month - 1)) + 1)
              else (year, month, n - preceding + 1))"

text \<open>
  Year, month and day of a \<open>date\<close>. The type holds the years \<open>MINYEAR\<close> to \<open>MAXYEAR\<close>,
  1 to 9999, and a conversion that leaves them raises OverflowError.
\<close>

fun ymd_of :: "pytime \<Rightarrow> error + int \<times> int \<times> int" where
  "ymd_of (Date d) =
     (case ord2ymd (d + 719163) of
        (y, m, dd) \<Rightarrow> if y < 1 \<or> 9999 < y then Inl OverflowError else Inr (y, m, dd))"
| "ymd_of _ = Inl AttributeError"

text \<open>
  dateutil's \<open>parse\<close> on a text that the UNTIL pattern admits, \<open>YYYYMMDDTHHMMSSZ\<close>: the
  aware datetime in UTC, or the parser's error when the digits are no date or time.
\<close>

definition parse :: "env \<Rightarrow> ustring \<Rightarrow> error + pytime" where
  "parse env g =
     (let y = number env (take 4 g); m = number env (take 2 (drop 4 g));
          d = number env (take 2 (drop 6 g));
          hh = number env (take 2 (drop 9 g)); mm = number env (take 2 (drop 11 g));
          ss = number env (take 2 (drop 13 g))
      in if y < 1 \<or> m < 1 \<or> m > 12 \<or> d < 1 \<or> d > days_in_month y m
            \<or> hh > 23 \<or> mm > 59 \<or> ss > 59
         then Inl ValueError
         else Inr (Aware ((ymd2ord y m d - 719163) * 86400 + hh * 3600 + mm * 60 + ss)
                         (Fixed 0) False))"

subsection \<open>Recurrence normalization\<close>

fun map_err :: "('a \<Rightarrow> error + 'b) \<Rightarrow> 'a list \<Rightarrow> error + 'b list" where
  "map_err f [] = Inr []"
| "map_err f (x # xs) = bind (f x) (\<lambda>y. bind (map_err f xs) (\<lambda>ys. Inr (y # ys)))"

text \<open>\<open>'\n'.join(lines)\<close>: the code point of the line feed is 10.\<close>

fun join_lines :: "ustring list \<Rightarrow> ustring" where
  "join_lines [] = []"
| "join_lines [l] = l"
| "join_lines (l # ls) = l @ 10 # join_lines ls"

definition fix_utc :: "env \<Rightarrow> calendar_event \<Rightarrow> ustring \<Rightarrow> error + ustring" where
  "fix_utc env e recurrence_line =
     (if \<not> contains (text_of ''RRULE'') recurrence_line
         \<or> \<not> contains (text_of ''UNTIL'') recurrence_line
      then Inr recurrence_line
      else case re_search env recurrence_line of
             None \<Rightarrow> Inr recurrence_line
           | Some g \<Rightarrow>
               bind (parse env g) (\<lambda>dt.
               bind (astimezone env dt (gettz env (default_timezone (google_calendar e)))) (\<lambda>loc.
               bind (date_method loc) (\<lambda>new_end.
               bind (ymd_of new_end) (\<lambda>(y, m, d).
                 Inr (re_sub env (text_of (''UNTIL='' @ str_int y @ pad2 m @ pad2 d))
                        recurrence_line))))))"

definition get_recurrence :: "env \<Rightarrow> calendar_event \<Rightarrow> error + ustring option" where
  "get_recurrence env e =
     (case raw_recurrence (raw e) of
        None \<Rightarrow> Inr None
      | Some recurrence \<Rightarrow>
          bind (start env e) (\<lambda>s.
          bind (if is_allday s then map_err (fix_utc env e) recurrence else Inr recurrence)
            (\<lambda>recurrence. Inr (Some (join_lines recurrence)))))"

text \<open>
  A datetime that the rule yields has the tzinfo of \<open>dtstart\<close>: it is naive for a naive
  \<open>dtstart\<close>, and aware in the zone of \<open>dtstart\<close>, with \<open>fold\<close> unset, otherwise. The rule
  object is the generator of these datetimes, \<open>i\<close> to the \<open>i\<close>-th of them.
\<close>

fun rule_instance :: "pytime \<Rightarrow> int \<Rightarrow> pytime" where
  "rule_instance (Aware _ tz _) w = Aware w tz False"
| "rule_instance _ w = Naive w"

definition get_rrule :: "env \<Rightarrow> calendar_event \<Rightarrow> error + (nat \<Rightarrow> pytime option) option" where
  "get_rrule env e =
     bind (get_recurrence env e) (\<lambda>rrule.
       case rrule of
         None \<Rightarrow> Inr None
       | Some text \<Rightarrow>
           bind (start env e) (\<lambda>s.
             let start_date = ensure_datetime s
             in bind (rrulestr env text start_date)
                  (\<lambda>rule. Inr (Some (\<lambda>i. map_option (rule_instance start_date) (rule i))))))"

subsection \<open>The next occurrence\<close>

text \<open>\<open>x.is_declined_by_me() or x.is_declined_by_others()\<close>, with the short cut of \<open>or\<close>.\<close>

definition is_declined :: "calendar_event \<Rightarrow> error + bool" where
  "is_declined e =
     bind (is_declined_by_me e) (\<lambda>b. if b then Inr True else is_declined_by_others e)"

text \<open>\<open>x._is_cancelled() or x.is_declined_by_me() or x.is_declined_by_others()\<close>.\<close>

definition is_excluded :: "calendar_event \<Rightarrow> error + bool" where
  "is_excluded e = bind (is_cancelled e) (\<lambda>b. if b then Inr True else is_declined e)"

text \<open>The list comprehension of lines 158 to 162, over \<open>self.exceptions.values()\<close>.\<close>

fun non_cancelled_exception_starts ::
  "env \<Rightarrow> calendar_event list \<Rightarrow> error + (pytime \<times> calendar_event) list" where
  "non_cancelled_exception_starts env [] = Inr []"
| "non_cancelled_exception_starts env (x # xs) =
     bind (is_excluded x) (\<lambda>b.
       if b then non_cancelled_exception_starts env xs
       else bind (start env x) (\<lambda>s.
            bind (non_cancelled_exception_starts env xs) (\<lambda>rest. Inr ((s, x) # rest))))"

text \<open>
  \<open>min(future_exception_starts, default=(None, None), key=lambda x: x[0])\<close>: \<open>min\<close> draws
  from the generator, which keeps the pairs with \<open>start > after_dt\<close>, and replaces its
  best pair when the key of the next one is smaller. \<open>best\<close> is the best pair so far.
\<close>

fun first_exception_start ::
  "env \<Rightarrow> pytime \<Rightarrow> (pytime \<times> calendar_event) option \<Rightarrow> (pytime \<times> calendar_event) list
   \<Rightarrow> error + (pytime \<times> calendar_event) option" where
  "first_exception_start env after_dt best [] = Inr best"
| "first_exception_start env after_dt best ((s, x) # rest) =
     bind (py_gt env s after_dt) (\<lambda>future.
       if \<not> future then first_exception_start env after_dt best rest
       else case best of
              None \<Rightarrow> first_exception_start env after_dt (Some (s, x)) rest
            | Some (bs, bx) \<Rightarrow>
                bind (py_lt env s bs) (\<lambda>smaller.
                  first_exception_start env after_dt (if smaller then Some (s, x) else best) rest))"

text \<open>The pair that is returned for the exception candidate: \<open>(None, None)\<close> by default.\<close>

definition candidate_result ::
  "(pytime \<times> calendar_event) option \<Rightarrow> pytime option \<times> calendar_event option" where
  "candidate_result c = (case c of None \<Rightarrow> (None, None) | Some (s, x) \<Rightarrow> (Some s, Some x))"

text \<open>
  The \<open>for\<close> loop of lines 174 to 182 over \<open>rrule_instances.xafter(dt)\<close>. \<open>xafter\<close> is a
  generator over the datetimes of the rule that yields those with \<open>d > dt\<close>, and the
  rule may yield without end: the loop is a function that need not return, and None
  is the call that does not. \<open>i\<close> counts the datetimes drawn from the rule. The
  comparison \<open>d > dt\<close> of a datetime is made when the loop asks for the next one.
\<close>

partial_function (option) walk_regular ::
  "env \<Rightarrow> calendar_event \<Rightarrow> (pytime \<times> calendar_event) option \<Rightarrow> pytime list
   \<Rightarrow> (nat \<Rightarrow> pytime option) \<Rightarrow> pytime \<Rightarrow> nat
   \<Rightarrow> (error + pytime option \<times> calendar_event option) option" where
  "walk_regular env self first_exc original_starts rrule_instances dt i =
     (case rrule_instances i of
        None \<Rightarrow> Some (Inr (candidate_result first_exc))
      | Some next_regular_occurrence \<Rightarrow>
          (case py_gt env next_regular_occurrence dt of
             Inl err \<Rightarrow> Some (Inl err)
           | Inr later \<Rightarrow>
               if \<not> later
               then walk_regular env self first_exc original_starts rrule_instances dt (Suc i)
               else
                 (case (case first_exc of
                          None \<Rightarrow> Inr False
                        | Some (s, x) \<Rightarrow> py_le env s next_regular_occurrence) of
                    Inl err \<Rightarrow> Some (Inl err)
                  | Inr exception_first \<Rightarrow>
                      if exception_first then Some (Inr (candidate_result first_exc))
                      else if \<not> py_in env next_regular_occurrence original_starts
                           then Some (Inr (Some next_regular_occurrence, Some self))
                           else walk_regular env self first_exc original_starts
                                  rrule_instances dt (Suc i))))"

text \<open>
  What \<open>_find_next_occurrence\<close> computes before the loop: the exception candidate, the
  original starts of the exceptions, and whether the master is declined.
\<close>

definition exception_candidates ::
  "env \<Rightarrow> calendar_event \<Rightarrow> pytime
   \<Rightarrow> error + (pytime \<times> calendar_event) option \<times> pytime list \<times> bool" where
  "exception_candidates env self after_dt =
     bind (non_cancelled_exception_starts env (map snd (exceptions self))) (\<lambda>starts.
     bind (first_exception_start env after_dt None starts) (\<lambda>first_exc.
     bind (map_err (get_original_start env) (map snd (exceptions self))) (\<lambda>original_starts.
     bind (is_declined self) (\<lambda>declined.
       Inr (first_exc, original_starts, declined)))))"

definition find_next_occurrence ::
  "env \<Rightarrow> calendar_event \<Rightarrow> (nat \<Rightarrow> pytime option) \<Rightarrow> pytime
   \<Rightarrow> (error + pytime option \<times> calendar_event option) option" where
  "find_next_occurrence env self rrule_instances after_dt =
     (case exception_candidates env self after_dt of
        Inl err \<Rightarrow> Some (Inl err)
      | Inr (first_exc, original_starts, declined) \<Rightarrow>
          if declined then Some (Inr (candidate_result first_exc))
          else walk_regular env self first_exc original_starts rrule_instances
                 (ensure_datetime after_dt) 0)"

text \<open>Lines 194 to 200: the occurrence found is brought to the shape of the start.\<close>

definition normalized ::
  "env \<Rightarrow> pytime \<Rightarrow> pytime option \<times> calendar_event option
   \<Rightarrow> error + pytime option \<times> calendar_event option" where
  "normalized env s found =
     (case found of (occ, source_event) \<Rightarrow>
        (case occ of
           None \<Rightarrow> Inr (None, source_event)
         | Some t \<Rightarrow>
             bind (if is_allday s then date_method t
                   else bind (tzinfo_of s) (astimezone env t))
               (\<lambda>t'. Inr (Some t', source_event))))"

definition next_occurrence ::
  "env \<Rightarrow> calendar_event \<Rightarrow> pytime
   \<Rightarrow> (error + pytime option \<times> calendar_event option) option" where
  "next_occurrence env self after =
     (case start env self of
        Inl err \<Rightarrow> Some (Inl err)
      | Inr s \<Rightarrow>
          let after_dt = datetime_as env after s
          in (case get_rrule env self of
                Inl err \<Rightarrow> Some (Inl err)
              | Inr None \<Rightarrow>
                  Some (bind (is_declined self) (\<lambda>declined.
                        bind (py_lt env after_dt s) (\<lambda>later.
                          Inr (if later \<and> \<not> declined then (Some s, Some self)
                               else (None, None)))))
              | Inr (Some instances) \<Rightarrow>
                  map_option (\<lambda>found. bind found (normalized env s))
                    (find_next_occurrence env self instances after_dt)))"

subsection \<open>Private properties and copies\<close>

text \<open>
  The dicts under \<open>extendedProperties\<close> are the one part of an event that the code
  mutates in place and copies with \<open>copy.deepcopy\<close>, so they live in a store: an
  address holds the dict with its two optional inner dicts, \<open>private\<close> and \<open>shared\<close>
  (an inner dict belongs to the one dict that holds it: the records come from JSON).
  \<open>next_addr\<close> is the first address that no object has yet.
\<close>

record ext_props =
  ext_private :: "(string \<rightharpoonup> string) option"
  ext_shared :: "(string \<rightharpoonup> string) option"

record store =
  cells :: "addr \<Rightarrow> ext_props"
  next_addr :: addr

definition alloc :: "store \<Rightarrow> ext_props \<Rightarrow> store \<times> addr" where
  "alloc h d = (h\<lparr>cells := (cells h)(next_addr h := d), next_addr := Suc (next_addr h)\<rparr>,
               next_addr h)"

text \<open>\<open>copy.deepcopy\<close> of the dict at an address, and of a raw record.\<close>

definition deepcopy_ext :: "store \<Rightarrow> addr \<Rightarrow> store \<times> addr" where
  "deepcopy_ext h a = alloc h (cells h a)"

definition deepcopy_raw :: "store \<Rightarrow> raw_event \<Rightarrow> store \<times> raw_event" where
  "deepcopy_raw h r =
     (case raw_extendedProperties r of
        None \<Rightarrow> (h, r)
      | Some a \<Rightarrow> (let (h', a') = deepcopy_ext h a
                  in (h', r\<lparr>raw_extendedProperties := Some a'\<rparr>)))"

definition update_from_raw :: "store \<times> calendar_event \<Rightarrow> raw_event \<Rightarrow> store \<times> calendar_event" where
  "update_from_raw st r =
     (case st of (h, CalendarEvent cal excs master _ ident _ _) \<Rightarrow>
        (let (h', r') = deepcopy_raw h r
         in (h', CalendarEvent cal excs master r' ident (raw_summary r')
                   (raw_extendedProperties r'))))"

text \<open>
  \<open>from_raw\<close>: the constructor leaves \<open>_raw\<close> unset, and \<open>update_from_raw\<close> sets it at
  once; the model builds the object with the record it is about to copy into it.
\<close>

definition from_raw :: "store \<Rightarrow> google_calendar \<Rightarrow> raw_event \<Rightarrow> store \<times> calendar_event" where
  "from_raw h cal r = update_from_raw (h, CalendarEvent cal [] None r (raw_id r) None None) r"

fun update_entry ::
  "store \<Rightarrow> raw_event \<Rightarrow> (string \<times> calendar_event) list
   \<Rightarrow> store \<times> (string \<times> calendar_event) list" where
  "update_entry h r [] = (h, [])"
| "update_entry h r ((k, x) # rest) =
     (if k = raw_id r
      then (let (h', x') = update_from_raw (h, x) r in (h', (k, x') # rest))
      else (let (h', rest') = update_entry h r rest in (h', (k, x) # rest')))"

definition update_exception :: "store \<times> calendar_event \<Rightarrow> raw_event \<Rightarrow> store \<times> calendar_event" where
  "update_exception st exc =
     (case st of (h, CalendarEvent cal excs master r ident summ ext) \<Rightarrow>
        if raw_id exc \<notin> set (map fst excs)
        then (case from_raw h cal exc of
                (h', CalendarEvent cal' excs' _ r' ident' summ' ext') \<Rightarrow>
                  (h', CalendarEvent cal
                         (excs @ [(raw_id exc, CalendarEvent cal' excs' (Some ident) r' ident' summ' ext')])
                         master r ident summ ext))
        else (let (h', excs') = update_entry h exc excs
              in (h', CalendarEvent cal excs' master r ident summ ext)))"

definition deep_copy :: "store \<Rightarrow> calendar_event \<Rightarrow> store \<times> calendar_event" where
  "deep_copy h self =
     foldl (\<lambda>st event_instance. update_exception st (raw event_instance))
       (from_raw h (google_calendar self) (raw self)) (map snd (exceptions self))"

text \<open>The values that are passed to \<open>save_private_info\<close>, and \<open>str\<close> of them.\<close>

datatype pyvalue = PyNone | PyStr string | PyInt int | PyBool bool

fun py_str :: "pyvalue \<Rightarrow> string" where
  "py_str PyNone = ''None''"
| "py_str (PyStr s) = s"
| "py_str (PyInt i) = str_int i"
| "py_str (PyBool b) = (if b then ''True'' else ''False'')"

text \<open>
  A method that mutates gives the outcome of the call, the error it raised if any, and
  the store and the object as the call leaves them.
\<close>

definition save_private_info ::
  "store \<times> calendar_event \<Rightarrow> string \<Rightarrow> pyvalue \<Rightarrow> error option \<times> store \<times> calendar_event" where
  "save_private_info st key v =
     (case st of (h, CalendarEvent cal excs master r ident summ ext) \<Rightarrow>
        if v = PyNone then (Some AssertionError, st)
        else
          let val = py_str v;
              (h, a) = (case ext of
                          None \<Rightarrow> alloc h \<lparr>ext_private = None, ext_shared = None\<rparr>
                        | Some old \<Rightarrow> deepcopy_ext h old);
              private = (case ext_private (cells h a) of None \<Rightarrow> Map.empty | Some m \<Rightarrow> m);
              h = h\<lparr>cells := (cells h)(a := (cells h a)
                     \<lparr>ext_private := Some (private(key \<mapsto> val))\<rparr>)\<rparr>
          in (None, h, CalendarEvent cal excs master r ident summ (Some a)))"

definition get_private_info :: "store \<times> calendar_event \<Rightarrow> string \<Rightarrow> string option" where
  "get_private_info st key =
     (case st of (h, e) \<Rightarrow>
        (case extended_properties e of
           None \<Rightarrow> None
         | Some a \<Rightarrow> (case ext_private (cells h a) of None \<Rightarrow> Map.empty | Some m \<Rightarrow> m) key))"

subsection \<open>Stores that grow\<close>

text \<open>
  \<open>extends h h'\<close>: the store \<open>h'\<close> holds every object of \<open>h\<close> unchanged, and perhaps new
  ones. \<open>fresh_in r h h'\<close>: the reference \<open>r\<close>, if any, is to an object made between \<open>h\<close>
  and \<open>h'\<close>. \<open>private_of h r\<close>: what the dict that \<open>r\<close> refers to holds under a key of
  its \<open>private\<close> part.
\<close>

definition extends :: "store \<Rightarrow> store \<Rightarrow> bool" where
  "extends h h' = (next_addr h \<le> next_addr h' \<and> (\<forall>a. a < next_addr h \<longrightarrow> cells h' a = cells h a))"

definition fresh_in :: "addr option \<Rightarrow> store \<Rightarrow> store \<Rightarrow> bool" where
  "fresh_in r h h' = (case r of None \<Rightarrow> True | Some a \<Rightarrow> next_addr h \<le> a \<and> a < next_addr h')"

definition private_of :: "store \<Rightarrow> addr option \<Rightarrow> string \<Rightarrow> string option" where
  "private_of h r key =
     (case r of
        None \<Rightarrow> None
      | Some a \<Rightarrow> (case ext_private (cells h a) of None \<Rightarrow> Map.empty | Some m \<Rightarrow> m) key)"

subsection \<open>The date of an instant in the default zone\<close>

text \<open>
  The vocabulary of the theorem on the \<open>UNTIL\<close> bound, not from the source: the date
  that the instant \<open>t\<close> has on the wall clock of the calendar's default zone, or of the
  system's zone when the time zone database does not have the name of the default zone.
\<close>

definition local_date :: "env \<Rightarrow> calendar_event \<Rightarrow> int \<Rightarrow> pytime" where
  "local_date env e t =
     Date ((if zone_known env (default_timezone (google_calendar e))
            then fst (fromutc env (default_timezone (google_calendar e)) t)
            else t + local_offset_at env t) div 86400)"

section \<open>Sample records\<close>

text \<open>
  Concrete records and events, on which the theorems below are instantiated. Day 19723
  is 2024-01-01. The sample environment has three zones, each with one offset all
  year, and a system zone on UTC; beyond ASCII it knows the Arabic-Indic digits, the
  code points 1632 to 1641; it knows two rules, six daily datetimes from the start and
  a daily datetime without end; and it lets \<open>datetime_as\<close> return an \<open>after\<close> that has
  the shape of the start already.
\<close>

definition sample_raw :: "string \<Rightarrow> raw_time \<Rightarrow> raw_event" where
  "sample_raw i s = \<lparr>raw_id = i, raw_status = Some ''confirmed'', raw_summary = None,
     raw_start = Some s, raw_end = None, raw_originalStartTime = None, raw_recurrence = None,
     raw_attendees = None, raw_extendedProperties = None\<rparr>"

definition sample_event :: "raw_event \<Rightarrow> calendar_event" where
  "sample_event r = CalendarEvent \<lparr>default_timezone = ''Europe/Sofia''\<rparr> [] None r (raw_id r)
     (raw_summary r) (raw_extendedProperties r)"

definition declined_by_guests :: calendar_event where
  "declined_by_guests =
     sample_event ((sample_raw ''e1''
         \<lparr>rt_date = Some 19723, rt_dateTime = None, rt_timeZone = None\<rparr>)
     \<lparr>raw_attendees := Some
        [\<lparr>att_self = Some True, att_resource = None, att_responseStatus = Some ''accepted''\<rparr>,
         \<lparr>att_self = None, att_resource = None, att_responseStatus = Some ''declined''\<rparr>,
         \<lparr>att_self = None, att_resource = Some True, att_responseStatus = Some ''needsAction''\<rparr>]\<rparr>)"

definition only_me :: calendar_event where
  "only_me =
     sample_event ((sample_raw ''e2''
         \<lparr>rt_date = Some 19723, rt_dateTime = None, rt_timeZone = None\<rparr>)
     \<lparr>raw_attendees := Some
        [\<lparr>att_self = Some True, att_resource = None, att_responseStatus = Some ''declined''\<rparr>]\<rparr>)"

definition no_attendees :: calendar_event where
  "no_attendees =
     sample_event (sample_raw ''e3''
       \<lparr>rt_date = Some 19723, rt_dateTime = None, rt_timeZone = None\<rparr>)"

definition empty_store :: store where
  "empty_store = \<lparr>cells = (\<lambda>_. \<lparr>ext_private = None, ext_shared = None\<rparr>), next_addr = 0\<rparr>"

definition linked_store :: store where
  "linked_store =
     \<lparr>cells = (\<lambda>_. \<lparr>ext_private = None, ext_shared = None\<rparr>)
         (0 := \<lparr>ext_private = Some [''todoist_id'' \<mapsto> ''7''], ext_shared = None\<rparr>),
      next_addr = 1\<rparr>"

definition linked_event :: calendar_event where
  "linked_event = sample_event ((sample_raw ''e4''
       \<lparr>rt_date = Some 19723, rt_dateTime = None, rt_timeZone = None\<rparr>)
     \<lparr>raw_extendedProperties := Some 0\<rparr>)"

definition sample_offset :: "string \<Rightarrow> int" where
  "sample_offset name =
     (if name = ''America/New_York'' then - 14400
      else if name = ''Europe/Sofia'' then 7200 else 0)"

definition sample_rule :: "ustring \<Rightarrow> int \<Rightarrow> error + (nat \<Rightarrow> int option)" where
  "sample_rule text w =
     (if text = text_of ''RRULE:FREQ=DAILY;COUNT=6''
      then Inr (\<lambda>i. if i < 6 then Some (w + 86400 * int i) else None)
      else if text = text_of ''RRULE:FREQ=DAILY''
      then Inr (\<lambda>i. Some (w + 86400 * int i))
      else Inl ValueError)"

definition sample_env :: env where
  "sample_env =
     \<lparr>zone_known = (\<lambda>name. name \<in> set [''America/New_York'', ''Europe/Sofia'', ''Europe/London'']),
      utcoffset = (\<lambda>name w fd. sample_offset name),
      fromutc = (\<lambda>name t. (t + sample_offset name, False)),
      local_utcoffset = (\<lambda>n. 0),
      local_offset_at = (\<lambda>t. 0),
      unicode_decimal = (\<lambda>c. if 1632 \<le> c \<and> c \<le> 1641 then Some (c - 1632) else None),
      rrulestr = (\<lambda>text dtstart.
         case dtstart of
           Date d \<Rightarrow> Inl TypeError
         | Naive w \<Rightarrow> sample_rule text w
         | Aware w tz fd \<Rightarrow> sample_rule text w),
      datetime_as = (\<lambda>dt target. dt)\<rparr>"

definition at_1500 :: "int \<Rightarrow> raw_time" where
  "at_1500 d = \<lparr>rt_date = None, rt_dateTime = Some (d * 86400 + 46800),
                rt_timeZone = Some ''Europe/Sofia''\<rparr>"

definition on_day :: "int \<Rightarrow> raw_time" where
  "on_day d = \<lparr>rt_date = Some d, rt_dateTime = None, rt_timeZone = None\<rparr>"

definition daily_series :: calendar_event where
  "daily_series =
     sample_event ((sample_raw ''m'' (at_1500 19723))
       \<lparr>raw_recurrence := Some [text_of ''RRULE:FREQ=DAILY;COUNT=6'']\<rparr>)"

definition daily_allday :: calendar_event where
  "daily_allday =
     sample_event ((sample_raw ''m'' (on_day 19723))
       \<lparr>raw_recurrence := Some [text_of ''RRULE:FREQ=DAILY;COUNT=6'']\<rparr>)"

definition endless_allday :: calendar_event where
  "endless_allday =
     sample_event ((sample_raw ''n'' (on_day 19723))
       \<lparr>raw_recurrence := Some [text_of ''RRULE:FREQ=DAILY'']\<rparr>)"

definition cancelled_meeting :: calendar_event where
  "cancelled_meeting =
     sample_event ((sample_raw ''s'' (at_1500 19723))\<lparr>raw_status := Some ''cancelled''\<rparr>)"

definition instance_of_series ::
  "string \<Rightarrow> string \<Rightarrow> raw_time \<Rightarrow> raw_time \<Rightarrow> calendar_event" where
  "instance_of_series i status orig s =
     CalendarEvent \<lparr>default_timezone = ''Europe/Sofia''\<rparr> [] (Some ''m'')
       ((sample_raw i s)\<lparr>raw_status := Some status, raw_originalStartTime := Some orig\<rparr>)
       i None None"

definition with_exception :: "calendar_event \<Rightarrow> calendar_event \<Rightarrow> calendar_event" where
  "with_exception e x =
     (case e of CalendarEvent cal excs master r ident summ ext \<Rightarrow>
        CalendarEvent cal (excs @ [(event_id x, x)]) master r ident summ ext)"

definition declined_by_me :: "calendar_event \<Rightarrow> calendar_event" where
  "declined_by_me e =
     (case e of CalendarEvent cal excs master r ident summ ext \<Rightarrow>
        CalendarEvent cal excs master
          (r\<lparr>raw_attendees := Some [\<lparr>att_self = Some True, att_resource = None,
                                    att_responseStatus = Some ''declined''\<rparr>]\<rparr>)
          ident summ ext)"

definition daily_with_override :: calendar_event where
  "daily_with_override =
     with_exception daily_series
       (instance_of_series ''x'' ''confirmed'' (at_1500 19725) (at_1500 19726))"

definition allday_with_cancelled :: calendar_event where
  "allday_with_cancelled =
     with_exception daily_allday
       (instance_of_series ''x'' ''cancelled'' (on_day 19725) (on_day 19725))"

definition allday_with_moved :: calendar_event where
  "allday_with_moved =
     with_exception daily_allday
       (instance_of_series ''x'' ''confirmed'' (on_day 19725) (on_day 19727))"

definition six_days :: "nat \<Rightarrow> pytime option" where
  "six_days i = (if i < 6 then Some (Naive (1704067200 + 86400 * int i)) else None)"

definition new_york_allday :: "ustring list \<Rightarrow> calendar_event" where
  "new_york_allday lines =
     CalendarEvent \<lparr>default_timezone = ''America/New_York''\<rparr> [] None
       ((sample_raw ''w'' (on_day 19723))\<lparr>raw_recurrence := Some lines\<rparr>)
       ''w'' None None"

definition weekly_until :: "raw_time \<Rightarrow> calendar_event" where
  "weekly_until s =
     CalendarEvent \<lparr>default_timezone = ''America/New_York''\<rparr> [] None
       ((sample_raw ''w'' s)
          \<lparr>raw_recurrence := Some [text_of ''RRULE:FREQ=WEEKLY;UNTIL=20240615T000000Z'',
                                    text_of ''EXDATE;VALUE=DATE:20240608'']\<rparr>)
       ''w'' None None"

text \<open>\<open>UNTIL=20240615T000000Z\<close> with its digits in the Arabic-Indic script.\<close>

definition arabic_indic_until :: ustring where
  "arabic_indic_until =
     text_of ''RRULE:FREQ=WEEKLY;UNTIL=''
     @ [1634, 1632, 1634, 1636, 1632, 1638, 1633, 1637] @ text_of ''T''
     @ [1632, 1632, 1632, 1632, 1632, 1632] @ text_of ''Z''"

section \<open>Properties\<close>

lemmas sample_defs = sample_event_def sample_raw_def attendees_def get_flag_def

lemma other_attendees_set:
  "set (other_attendees e) =
     {x \<in> set (attendees e). \<not> get_flag (att_self x) \<and> \<not> get_flag (att_resource x)}"
  by (auto simp: other_attendees_def)

text \<open>
  C7: \<open>is_declined_by_others\<close> returns True exactly when the event has an attendee that
  is flagged neither \<open>self\<close> nor \<open>resource\<close> and every such attendee has the response
  status \<open>declined\<close>. With no such attendee, and so with no \<open>attendees\<close> key at all, it
  returns False and raises nothing.
\<close>

theorem is_declined_by_others_iff:
  "(is_declined_by_others e = Inr True \<longleftrightarrow>
      (\<exists>x \<in> set (attendees e). \<not> get_flag (att_self x) \<and> \<not> get_flag (att_resource x))
      \<and> (\<forall>x \<in> set (attendees e).
            \<not> get_flag (att_self x) \<and> \<not> get_flag (att_resource x)
            \<longrightarrow> att_responseStatus x = Some ''declined''))
   \<and> ((\<forall>x \<in> set (attendees e). get_flag (att_self x) \<or> get_flag (att_resource x))
        \<longrightarrow> is_declined_by_others e = Inr False)
   \<and> (raw_attendees (raw e) = None \<longrightarrow> is_declined_by_others e = Inr False)"
proof (intro conjI impI)
  show "is_declined_by_others e = Inr True \<longleftrightarrow>
      (\<exists>x \<in> set (attendees e). \<not> get_flag (att_self x) \<and> \<not> get_flag (att_resource x))
      \<and> (\<forall>x \<in> set (attendees e).
            \<not> get_flag (att_self x) \<and> \<not> get_flag (att_resource x)
            \<longrightarrow> att_responseStatus x = Some ''declined'')"
  proof -
    have ne: "other_attendees e \<noteq> [] \<longleftrightarrow>
        (\<exists>x \<in> set (attendees e). \<not> get_flag (att_self x) \<and> \<not> get_flag (att_resource x))"
      by (simp add: other_attendees_def filter_empty_conv)
    show ?thesis
      unfolding is_declined_by_others_def ne[symmetric]
      by (auto simp: list_ex_iff list_all_iff other_attendees_set)
  qed
next
  assume "\<forall>x \<in> set (attendees e). get_flag (att_self x) \<or> get_flag (att_resource x)"
  then have "other_attendees e = []"
    by (auto simp: other_attendees_def filter_empty_conv)
  then show "is_declined_by_others e = Inr False"
    by (simp add: is_declined_by_others_def)
next
  assume "raw_attendees (raw e) = None"
  then have "other_attendees e = []"
    by (simp add: other_attendees_def attendees_def)
  then show "is_declined_by_others e = Inr False"
    by (simp add: is_declined_by_others_def)
qed

theorem is_declined_by_others_iff_witness:
  "is_declined_by_others declined_by_guests = Inr True
   \<and> is_declined_by_others only_me = Inr False
   \<and> is_declined_by_others no_attendees = Inr False"
proof -
  have "(\<exists>x \<in> set (attendees declined_by_guests).
            \<not> get_flag (att_self x) \<and> \<not> get_flag (att_resource x))
        \<and> (\<forall>x \<in> set (attendees declined_by_guests).
              \<not> get_flag (att_self x) \<and> \<not> get_flag (att_resource x)
              \<longrightarrow> att_responseStatus x = Some ''declined'')"
    by (simp add: declined_by_guests_def sample_defs)
  then have a: "is_declined_by_others declined_by_guests = Inr True"
    using is_declined_by_others_iff [of declined_by_guests] by blast
  have "\<forall>x \<in> set (attendees only_me). get_flag (att_self x) \<or> get_flag (att_resource x)"
    by (simp add: only_me_def sample_defs)
  then have b: "is_declined_by_others only_me = Inr False"
    using is_declined_by_others_iff [of only_me] by blast
  have "raw_attendees (raw no_attendees) = None"
    by (simp add: no_attendees_def sample_defs)
  then have c: "is_declined_by_others no_attendees = Inr False"
    using is_declined_by_others_iff [of no_attendees] by blast
  from a b c show ?thesis by simp
qed

lemma tz_fromutc_aware: "\<exists>w fd. tz_fromutc env z t = Aware w z fd"
  by (cases z) (auto split: prod.splits)

lemma get_timezone_name:
  "get_timezone env e rs =
     gettz env (if (case rt_timeZone rs of None \<Rightarrow> default_timezone (google_calendar e)
                    | Some z \<Rightarrow> z) = ''UTC''
                then ''Europe/London''
                else (case rt_timeZone rs of None \<Rightarrow> default_timezone (google_calendar e)
                      | Some z \<Rightarrow> z))"
  by (simp add: get_timezone_def Let_def)

lemma parse_start_timed:
  assumes "rt_date rs = None" and "rt_dateTime rs = Some t"
  shows "parse_start env e rs = Inr (to_zone env t (get_timezone env e rs))"
proof -
  have "get_timezone env e rs \<noteq> Some (Fixed 0)"
    by (simp add: get_timezone_name gettz_def)
  then show ?thesis
    using assms by (simp add: parse_start_def utc_of_def)
qed

text \<open>
  C6: the zone of a timed record is the one its \<open>timeZone\<close> key names, or the calendar's
  default zone when the key is absent; the name \<open>UTC\<close>, from either place, is replaced
  by \<open>Europe/London\<close>, so the zone is always asked for under a name other than \<open>UTC\<close>
  and no record resolves to the zone \<open>UTC\<close>. The parsed start of a timed record is its
  instant in the zone so resolved, and carries that zone; when the database does not
  have the name, it is the instant at the fixed offset of the system's zone.
\<close>

theorem get_timezone_resolution:
  "(rt_timeZone rs = Some z \<and> z \<noteq> ''UTC'' \<longrightarrow> get_timezone env e rs = gettz env z)
   \<and> (rt_timeZone rs = None \<and> default_timezone (google_calendar e) \<noteq> ''UTC''
        \<longrightarrow> get_timezone env e rs = gettz env (default_timezone (google_calendar e)))
   \<and> (rt_timeZone rs = Some ''UTC'' \<longrightarrow> get_timezone env e rs = gettz env ''Europe/London'')
   \<and> (rt_timeZone rs = None \<and> default_timezone (google_calendar e) = ''UTC''
        \<longrightarrow> get_timezone env e rs = gettz env ''Europe/London'')
   \<and> get_timezone env e rs \<noteq> Some (TZ ''UTC'')
   \<and> (\<exists>name. name \<noteq> ''UTC'' \<and> get_timezone env e rs = gettz env name)
   \<and> (rt_date rs = None \<and> rt_dateTime rs = Some t \<and> get_timezone env e rs = Some zone
        \<longrightarrow> parse_start env e rs = Inr (tz_fromutc env zone t)
            \<and> tzinfo_of (tz_fromutc env zone t) = Inr (Some zone))
   \<and> (rt_date rs = None \<and> rt_dateTime rs = Some t \<and> get_timezone env e rs = None
        \<longrightarrow> parse_start env e rs =
              Inr (Aware (t + local_offset_at env t) (Fixed (local_offset_at env t)) False))"
proof (intro conjI impI)
  show "get_timezone env e rs \<noteq> Some (TZ ''UTC'')"
    by (simp add: get_timezone_def gettz_def Let_def split: option.splits)
  show "\<exists>name. name \<noteq> ''UTC'' \<and> get_timezone env e rs = gettz env name"
  proof (cases "(case rt_timeZone rs of None \<Rightarrow> default_timezone (google_calendar e)
                 | Some z \<Rightarrow> z) = ''UTC''")
    case True
    then have "get_timezone env e rs = gettz env ''Europe/London''"
      by (simp add: get_timezone_name)
    then show ?thesis by (intro exI [of _ "''Europe/London''"]) simp
  next
    case False
    then show ?thesis
      by (intro exI [of _ "case rt_timeZone rs of None \<Rightarrow> default_timezone (google_calendar e)
                             | Some z \<Rightarrow> z"]) (simp add: get_timezone_name)
  qed
next
  assume a: "rt_date rs = None \<and> rt_dateTime rs = Some t \<and> get_timezone env e rs = Some zone"
  then show "parse_start env e rs = Inr (tz_fromutc env zone t)"
    by (simp add: parse_start_timed to_zone_def)
  from tz_fromutc_aware [of env zone t]
  show "tzinfo_of (tz_fromutc env zone t) = Inr (Some zone)" by auto
next
  assume "rt_date rs = None \<and> rt_dateTime rs = Some t \<and> get_timezone env e rs = None"
  then show "parse_start env e rs =
      Inr (Aware (t + local_offset_at env t) (Fixed (local_offset_at env t)) False)"
    by (simp add: parse_start_timed to_zone_def)
qed (simp_all add: get_timezone_name)

theorem get_timezone_resolution_witness:
  "get_timezone sample_env no_attendees
       \<lparr>rt_date = None, rt_dateTime = Some 1704380400, rt_timeZone = Some ''UTC''\<rparr>
     = gettz sample_env ''Europe/London''
   \<and> get_timezone sample_env no_attendees
       \<lparr>rt_date = None, rt_dateTime = Some 1704380400, rt_timeZone = None\<rparr>
     = gettz sample_env ''Europe/Sofia''
   \<and> get_timezone sample_env no_attendees
        \<lparr>rt_date = None, rt_dateTime = Some 1704380400, rt_timeZone = Some ''America/New_York''\<rparr>
     = gettz sample_env ''America/New_York''
   \<and> parse_start sample_env no_attendees
        \<lparr>rt_date = None, rt_dateTime = Some 1704380400, rt_timeZone = Some ''UTC''\<rparr>
     = Inr (Aware 1704380400 (TZ ''Europe/London'') False)
   \<and> parse_start sample_env no_attendees
        \<lparr>rt_date = None, rt_dateTime = Some 1704380400, rt_timeZone = None\<rparr>
     = Inr (Aware 1704387600 (TZ ''Europe/Sofia'') False)
   \<and> parse_start sample_env no_attendees
        \<lparr>rt_date = None, rt_dateTime = Some 1704380400, rt_timeZone = Some ''Mars/Olympus''\<rparr>
     = Inr (Aware 1704380400 (Fixed 0) False)"
proof -
  let ?utc = "\<lparr>rt_date = None, rt_dateTime = Some 1704380400, rt_timeZone = Some ''UTC''\<rparr>"
  let ?none = "\<lparr>rt_date = None, rt_dateTime = Some 1704380400, rt_timeZone = None\<rparr>"
  let ?ny = "\<lparr>rt_date = None, rt_dateTime = Some 1704380400, rt_timeZone = Some ''America/New_York''\<rparr>"
  let ?mars = "\<lparr>rt_date = None, rt_dateTime = Some 1704380400, rt_timeZone = Some ''Mars/Olympus''\<rparr>"
  have a: "get_timezone sample_env no_attendees ?utc = gettz sample_env ''Europe/London''"
    using get_timezone_resolution [of ?utc "''UTC''" sample_env no_attendees 1704380400] by simp
  have dz: "default_timezone (google_calendar no_attendees) = ''Europe/Sofia''"
    by (simp add: no_attendees_def sample_defs)
  then have b: "get_timezone sample_env no_attendees ?none = gettz sample_env ''Europe/Sofia''"
    using get_timezone_resolution [of ?none "''UTC''" sample_env no_attendees 1704380400] by simp
  have c: "get_timezone sample_env no_attendees ?ny = gettz sample_env ''America/New_York''"
    using get_timezone_resolution
      [of ?ny "''America/New_York''" sample_env no_attendees 1704380400] by simp
  have d: "parse_start sample_env no_attendees ?utc =
             Inr (Aware 1704380400 (TZ ''Europe/London'') False)"
    using get_timezone_resolution
      [of ?utc "''UTC''" sample_env no_attendees 1704380400 "TZ ''Europe/London''"]
    by (simp add: gettz_def sample_env_def sample_offset_def)
  have f: "parse_start sample_env no_attendees ?none =
             Inr (Aware 1704387600 (TZ ''Europe/Sofia'') False)"
    using get_timezone_resolution
      [of ?none "''UTC''" sample_env no_attendees 1704380400 "TZ ''Europe/Sofia''"] dz
    by (simp add: gettz_def sample_env_def sample_offset_def)
  have g: "parse_start sample_env no_attendees ?mars = Inr (Aware 1704380400 (Fixed 0) False)"
    using get_timezone_resolution
      [of ?mars "''Mars/Olympus''" sample_env no_attendees 1704380400]
    by (simp add: gettz_def sample_env_def sample_offset_def)
  from a b c d f g show ?thesis by simp
qed

text \<open>
  C8: \<open>save_private_info(key, None)\<close> raises (the \<open>assert\<close> on its first line) and leaves
  the store and the event as they were.
\<close>

theorem save_private_info_none:
  "save_private_info st key PyNone = (Some AssertionError, st)"
  by (cases st; cases "snd st") (simp add: save_private_info_def)

text \<open>
  C10: after \<open>save_private_info(key, v)\<close> with \<open>v\<close> not None, \<open>get_private_info(key)\<close>
  returns \<open>str(v)\<close>: an integer comes back as its decimal text.
\<close>

theorem save_then_get_private_info:
  "v \<noteq> PyNone \<Longrightarrow>
     fst (save_private_info st key v) = None
     \<and> get_private_info (snd (save_private_info st key v)) key = Some (py_str v)"
  by (cases st; cases "snd st")
     (simp add: save_private_info_def get_private_info_def alloc_def deepcopy_ext_def Let_def
           split: option.splits prod.splits)


theorem save_then_get_private_info_witness:
  "PyInt 4217 \<noteq> PyNone
   \<and> fst (save_private_info (empty_store, no_attendees) ''todoist_id'' (PyInt 4217)) = None
   \<and> get_private_info (snd (save_private_info (empty_store, no_attendees) ''todoist_id'' (PyInt 4217)))
        ''todoist_id'' = Some ''4217''"
proof -
  have h: "PyInt 4217 \<noteq> PyNone" by simp
  have s: "str_int 4217 = ''4217''"
    by (simp add: str_int_def digit_char_def)
  show ?thesis
    using h save_then_get_private_info [OF h, of "(empty_store, no_attendees)" "''todoist_id''"]
    by (simp add: s)
qed

subsection \<open>Copies do not share their private properties\<close>

lemma extends_refl: "extends h h"
  by (simp add: extends_def)

lemma extends_trans: "extends h h' \<Longrightarrow> extends h' h'' \<Longrightarrow> extends h h''"
  by (auto simp: extends_def)

lemma alloc_extends: "alloc h d = (h', a) \<Longrightarrow> extends h h' \<and> a = next_addr h \<and> next_addr h' = Suc a"
  by (auto simp: alloc_def extends_def)

lemma deepcopy_raw_extends:
  "deepcopy_raw h r = (h', r') \<Longrightarrow> extends h h' \<and> fresh_in (raw_extendedProperties r') h h'"
  by (auto simp: deepcopy_raw_def deepcopy_ext_def alloc_def extends_def fresh_in_def
           split: option.splits prod.splits)

lemma deepcopy_raw_holds:
  "deepcopy_raw h r = (h', r') \<Longrightarrow>
     private_of h' (raw_extendedProperties r') key = private_of h (raw_extendedProperties r) key
     \<and> (raw_extendedProperties r' = None) = (raw_extendedProperties r = None)"
  by (auto simp: deepcopy_raw_def deepcopy_ext_def alloc_def private_of_def
           split: option.splits prod.splits)

lemma update_from_raw_extends:
  "update_from_raw (h, e) r = (h', e') \<Longrightarrow>
     extends h h' \<and> fresh_in (extended_properties e') h h'"
  by (cases e) (auto simp: update_from_raw_def split: prod.splits dest: deepcopy_raw_extends)

lemma update_from_raw_holds:
  "update_from_raw (h, e) r = (h', e') \<Longrightarrow>
     private_of h' (extended_properties e') key = private_of h (raw_extendedProperties r) key
     \<and> (extended_properties e' = None) = (raw_extendedProperties r = None)"
  by (cases e) (auto simp: update_from_raw_def split: prod.splits dest: deepcopy_raw_holds)

lemma from_raw_extends:
  "from_raw h cal r = (h', e') \<Longrightarrow> extends h h' \<and> fresh_in (extended_properties e') h h'"
  unfolding from_raw_def by (rule update_from_raw_extends)

lemma from_raw_holds:
  "from_raw h cal r = (h', e') \<Longrightarrow>
     private_of h' (extended_properties e') key = private_of h (raw_extendedProperties r) key
     \<and> (extended_properties e' = None) = (raw_extendedProperties r = None)"
  unfolding from_raw_def by (rule update_from_raw_holds)

lemma update_entry_extends: "update_entry h r xs = (h', xs') \<Longrightarrow> extends h h'"
proof (induction xs arbitrary: h' xs')
  case Nil
  then show ?case by (simp add: extends_refl)
next
  case (Cons p xs)
  obtain k x where p: "p = (k, x)" by (cases p)
  show ?case
  proof (cases "k = raw_id r")
    case True
    with Cons.prems p show ?thesis
      by (auto split: prod.splits dest: update_from_raw_extends)
  next
    case False
    with Cons.prems p Cons.IH show ?thesis
      by (auto split: prod.splits)
  qed
qed

lemma update_exception_extends:
  "update_exception (h, e) r = (h', e') \<Longrightarrow>
     extends h h' \<and> extended_properties e' = extended_properties e"
proof (cases e)
  case (CalendarEvent cal excs master rw ident summ ext)
  assume u: "update_exception (h, e) r = (h', e')"
  show ?thesis
  proof (cases "raw_id r \<in> set (map fst excs)")
    case True
    with u CalendarEvent show ?thesis
      by (auto simp: update_exception_def split: prod.splits dest: update_entry_extends)
  next
    case False
    obtain h2 x where f: "from_raw h cal r = (h2, x)" by (cases "from_raw h cal r")
    from False u CalendarEvent f show ?thesis
      by (cases x) (auto simp: update_exception_def dest: from_raw_extends)
  qed
qed

lemma foldl_update_exception_extends:
  "foldl (\<lambda>st x. update_exception st (raw x)) (h, e) xs = (h', e') \<Longrightarrow>
     extends h h' \<and> extended_properties e' = extended_properties e"
proof (induction xs arbitrary: h e)
  case Nil
  then show ?case by (simp add: extends_refl)
next
  case (Cons x xs)
  obtain h2 e2 where s: "update_exception (h, e) (raw x) = (h2, e2)"
    by (cases "update_exception (h, e) (raw x)")
  with Cons.prems have "foldl (\<lambda>st x. update_exception st (raw x)) (h2, e2) xs = (h', e')"
    by simp
  from Cons.IH [OF this] update_exception_extends [OF s] show ?case
    by (auto intro: extends_trans)
qed

lemma private_of_extends:
  "extends h h' \<Longrightarrow> (\<And>a. r = Some a \<Longrightarrow> a < next_addr h) \<Longrightarrow>
     private_of h' r key = private_of h r key"
  by (cases r) (simp_all add: private_of_def extends_def)

lemma deep_copy_fresh:
  assumes "deep_copy h e = (h1, c)"
  shows "extends h h1 \<and> fresh_in (extended_properties c) h h1
         \<and> private_of h1 (extended_properties c) key =
             private_of h (raw_extendedProperties (raw e)) key
         \<and> (extended_properties c = None) = (raw_extendedProperties (raw e) = None)"
proof -
  obtain h0 c0 where f: "from_raw h (google_calendar e) (raw e) = (h0, c0)"
    by (cases "from_raw h (google_calendar e) (raw e)")
  with assms have
    "foldl (\<lambda>st x. update_exception st (raw x)) (h0, c0) (map snd (exceptions e)) = (h1, c)"
    by (simp add: deep_copy_def)
  from foldl_update_exception_extends [OF this]
  have e1: "extends h0 h1" and same: "extended_properties c = extended_properties c0"
    by simp_all
  from from_raw_extends [OF f]
  have e0: "extends h h0" and fr: "fresh_in (extended_properties c0) h h0" by simp_all
  have "private_of h1 (extended_properties c0) key = private_of h0 (extended_properties c0) key"
    using fr by (intro private_of_extends [OF e1]) (simp add: fresh_in_def)
  with from_raw_holds [OF f, of key] same e0 e1 fr show ?thesis
    by (auto simp: extends_def fresh_in_def split: option.splits)
qed

lemma save_private_info_frame:
  "a < next_addr h \<Longrightarrow> cells (fst (snd (save_private_info (h, e) key v))) a = cells h a"
  by (cases e)
     (auto simp: save_private_info_def alloc_def deepcopy_ext_def Let_def split: option.splits)

lemma save_private_info_fresh:
  "v \<noteq> PyNone \<Longrightarrow>
     extended_properties (snd (snd (save_private_info (h, e) key v))) = Some (next_addr h)"
  by (cases e)
     (auto simp: save_private_info_def alloc_def deepcopy_ext_def Let_def split: option.splits)

lemma get_private_info_cong:
  "(\<And>a. extended_properties e = Some a \<Longrightarrow> cells h' a = cells h a) \<Longrightarrow>
     get_private_info (h', e) key = get_private_info (h, e) key"
  by (auto simp: get_private_info_def split: option.splits)

lemma get_private_info_private_of:
  "get_private_info (h, e) key = private_of h (extended_properties e) key"
  by (simp add: get_private_info_def private_of_def)

lemma save_private_info_stores:
  "v \<noteq> PyNone \<Longrightarrow> get_private_info (snd (save_private_info st key v)) key = Some (py_str v)"
  by (cases st; cases "snd st")
     (simp add: save_private_info_def get_private_info_def alloc_def deepcopy_ext_def Let_def
           split: option.splits prod.splits)

lemma linked_copy:
  "deep_copy linked_store linked_event =
     (\<lparr>cells = (\<lambda>_. \<lparr>ext_private = None, ext_shared = None\<rparr>)
         (0 := \<lparr>ext_private = Some [''todoist_id'' \<mapsto> ''7''], ext_shared = None\<rparr>,
          Suc 0 := \<lparr>ext_private = Some [''todoist_id'' \<mapsto> ''7''], ext_shared = None\<rparr>),
      next_addr = 2\<rparr>,
      CalendarEvent \<lparr>default_timezone = ''Europe/Sofia''\<rparr> [] None
        ((sample_raw ''e4'' \<lparr>rt_date = Some 19723, rt_dateTime = None, rt_timeZone = None\<rparr>)
           \<lparr>raw_extendedProperties := Some 1\<rparr>) ''e4'' None (Some 1))"
  by (simp add: deep_copy_def from_raw_def update_from_raw_def deepcopy_raw_def deepcopy_ext_def
        alloc_def linked_store_def linked_event_def sample_event_def sample_raw_def)

text \<open>
  C9: let \<open>c\<close> be the copy that \<open>deep_copy\<close> makes of an event \<open>e\<close> whose dicts are
  objects of the store. The mapping of \<open>c\<close>, if it has one, is an object that
  \<open>deep_copy\<close> has made: it is neither the mapping of \<open>e\<close> nor the one in the raw record
  of \<open>e\<close>, and \<open>c\<close> has a mapping exactly when that raw record has one. The copy reads
  what the raw record of \<open>e\<close> holds, and \<open>e\<close> reads what it read before. A later
  \<open>save_private_info\<close> on \<open>e\<close> changes no value that \<open>get_private_info\<close> returns on \<open>c\<close>,
  and one on \<open>c\<close> changes none on \<open>e\<close>; the event written to gets one more new object
  as its mapping, so that the two never come to share one.
\<close>

theorem deep_copy_isolated:
  assumes "deep_copy h e = (h1, c)"
      and "\<forall>a. extended_properties e = Some a \<longrightarrow> a < next_addr h"
      and "\<forall>a. raw_extendedProperties (raw e) = Some a \<longrightarrow> a < next_addr h"
  shows "(\<forall>b. extended_properties c = Some b \<longrightarrow>
            next_addr h \<le> b \<and> b < next_addr h1
            \<and> extended_properties e \<noteq> Some b \<and> raw_extendedProperties (raw e) \<noteq> Some b)
         \<and> (extended_properties c = None) = (raw_extendedProperties (raw e) = None)
         \<and> get_private_info (h1, c) key' = private_of h (raw_extendedProperties (raw e)) key'
         \<and> get_private_info (h1, e) key' = get_private_info (h, e) key'
         \<and> get_private_info (fst (snd (save_private_info (h1, e) key v)), c) key' =
             get_private_info (h1, c) key'
         \<and> get_private_info (fst (snd (save_private_info (h1, c) key v)), e) key' =
             get_private_info (h1, e) key'
         \<and> (v \<noteq> PyNone \<longrightarrow>
              extended_properties (snd (snd (save_private_info (h1, e) key v))) = Some (next_addr h1)
              \<and> extended_properties (snd (snd (save_private_info (h1, c) key v))) = Some (next_addr h1)
              \<and> extended_properties c \<noteq> Some (next_addr h1)
              \<and> extended_properties e \<noteq> Some (next_addr h1))"
proof -
  from deep_copy_fresh [OF assms(1), of key']
  have ext: "extends h h1" and fr: "fresh_in (extended_properties c) h h1"
    and holds: "private_of h1 (extended_properties c) key' =
                  private_of h (raw_extendedProperties (raw e)) key'"
    and none: "(extended_properties c = None) = (raw_extendedProperties (raw e) = None)"
    by simp_all
  have new: "\<forall>b. extended_properties c = Some b \<longrightarrow>
            next_addr h \<le> b \<and> b < next_addr h1
            \<and> extended_properties e \<noteq> Some b \<and> raw_extendedProperties (raw e) \<noteq> Some b"
    using fr assms(2,3) by (auto simp: fresh_in_def)
  have reads: "get_private_info (h1, c) key' = private_of h (raw_extendedProperties (raw e)) key'"
    using holds by (simp add: get_private_info_private_of)
  have kept: "get_private_info (h1, e) key' = get_private_info (h, e) key'"
    unfolding get_private_info_private_of
    using assms(2) by (intro private_of_extends [OF ext]) simp
  have copy_kept: "get_private_info (fst (snd (save_private_info (h1, e) key v)), c) key' =
           get_private_info (h1, c) key'"
  proof (rule get_private_info_cong)
    fix a assume "extended_properties c = Some a"
    with fr have "a < next_addr h1" by (simp add: fresh_in_def)
    then show "cells (fst (snd (save_private_info (h1, e) key v))) a = cells h1 a"
      by (rule save_private_info_frame)
  qed
  have original_kept: "get_private_info (fst (snd (save_private_info (h1, c) key v)), e) key' =
           get_private_info (h1, e) key'"
  proof (rule get_private_info_cong)
    fix a assume "extended_properties e = Some a"
    with assms(2) have "a < next_addr h" by simp
    with ext have "a < next_addr h1" by (simp add: extends_def)
    then show "cells (fst (snd (save_private_info (h1, c) key v))) a = cells h1 a"
      by (rule save_private_info_frame)
  qed
  have "extended_properties c \<noteq> Some (next_addr h1)"
    using fr by (auto simp: fresh_in_def)
  moreover have "extended_properties e \<noteq> Some (next_addr h1)"
    using assms(2) ext by (auto simp: extends_def)
  ultimately have written: "v \<noteq> PyNone \<longrightarrow>
      extended_properties (snd (snd (save_private_info (h1, e) key v))) = Some (next_addr h1)
      \<and> extended_properties (snd (snd (save_private_info (h1, c) key v))) = Some (next_addr h1)
      \<and> extended_properties c \<noteq> Some (next_addr h1)
      \<and> extended_properties e \<noteq> Some (next_addr h1)"
    by (simp add: save_private_info_fresh)
  show ?thesis
    by (intro conjI new none reads kept copy_kept original_kept written)
qed

theorem deep_copy_isolated_witness:
  "extended_properties linked_event = Some 0
   \<and> extended_properties (snd (deep_copy linked_store linked_event)) = Some 1
   \<and> get_private_info (deep_copy linked_store linked_event) ''todoist_id'' = Some ''7''
   \<and> get_private_info
     (fst (snd (save_private_info (fst (deep_copy linked_store linked_event), linked_event)
                  ''todoist_id'' (PyInt 8))),
      snd (deep_copy linked_store linked_event)) ''todoist_id'' = Some ''7''
   \<and> get_private_info
     (fst (snd (save_private_info (fst (deep_copy linked_store linked_event),
                                   snd (deep_copy linked_store linked_event))
                  ''todoist_id'' (PyInt 8))),
      linked_event) ''todoist_id'' = Some ''7''
   \<and> get_private_info
     (snd (save_private_info (fst (deep_copy linked_store linked_event), linked_event)
             ''todoist_id'' (PyInt 8))) ''todoist_id'' = Some ''8''"
proof -
  let ?h1 = "fst (deep_copy linked_store linked_event)"
  let ?c = "snd (deep_copy linked_store linked_event)"
  have dc: "deep_copy linked_store linked_event = (?h1, ?c)" by simp
  have x: "extended_properties linked_event = Some 0"
    by (simp add: linked_event_def sample_event_def sample_raw_def)
  have rx: "raw_extendedProperties (raw linked_event) = Some 0"
    by (simp add: linked_event_def sample_event_def sample_raw_def)
  have n: "next_addr linked_store = 1"
    by (simp add: linked_store_def)
  have al: "\<forall>a. extended_properties linked_event = Some a \<longrightarrow> a < next_addr linked_store"
    by (simp add: x n)
  have ral: "\<forall>a. raw_extendedProperties (raw linked_event) = Some a \<longrightarrow> a < next_addr linked_store"
    by (simp add: rx n)
  have y: "extended_properties ?c = Some 1"
    by (simp add: linked_copy)
  have p: "private_of linked_store (Some 0) ''todoist_id'' = Some ''7''"
    by (simp add: private_of_def linked_store_def)
  have s: "get_private_info (snd (save_private_info (?h1, linked_event) ''todoist_id'' (PyInt 8)))
             ''todoist_id'' = Some ''8''"
    using save_private_info_stores [of "PyInt 8" "(?h1, linked_event)" "''todoist_id''"]
    by (simp add: str_int_def digit_char_def)
  have g: "get_private_info (linked_store, linked_event) ''todoist_id'' = Some ''7''"
    by (simp add: get_private_info_private_of x p)
  from deep_copy_isolated [OF dc al ral, of "''todoist_id''" "''todoist_id''" "PyInt 8"]
  have "get_private_info (?h1, ?c) ''todoist_id'' = Some ''7''"
    and "get_private_info (?h1, linked_event) ''todoist_id'' = Some ''7''"
    and "get_private_info (fst (snd (save_private_info (?h1, linked_event) ''todoist_id''
           (PyInt 8))), ?c) ''todoist_id'' = get_private_info (?h1, ?c) ''todoist_id''"
    and "get_private_info (fst (snd (save_private_info (?h1, ?c) ''todoist_id'' (PyInt 8))),
           linked_event) ''todoist_id'' = get_private_info (?h1, linked_event) ''todoist_id''"
    by (simp_all add: rx p g)
  with x y s show ?thesis by simp
qed

subsection \<open>The next occurrence of a single event, and of a series without exceptions\<close>

lemmas event_defs = sample_event_def sample_raw_def at_1500_def on_day_def start_def
  parse_start_def get_timezone_def gettz_def attendees_def get_flag_def other_attendees_def
  is_declined_by_me_def is_declined_by_others_def response_status_def

lemma bind_Inr [simp]: "bind (Inr v) f = f v"
  by (simp add: bind_def)

lemma bind_Inl [simp]: "bind (Inl e) f = Inl e"
  by (simp add: bind_def)

lemma is_declined_both:
  "is_declined_by_me e = Inr dm \<Longrightarrow> is_declined_by_others e = Inr dothers \<Longrightarrow>
     is_declined e = Inr (dm \<or> dothers)"
  by (simp add: is_declined_def)

lemma get_rrule_single: "raw_recurrence (raw e) = None \<Longrightarrow> get_rrule env e = Inr None"
  by (simp add: get_rrule_def get_recurrence_def)



text \<open>
  The loop passes over the datetimes of the rule that are not later than \<open>dt\<close>, and a
  call of it that returns has met a datetime that is later, or the end of the rule.
\<close>

lemma walk_regular_skip:
  assumes "\<forall>j. i \<le> j \<and> j < n \<longrightarrow> (\<exists>d. rule j = Some d \<and> py_gt env d dt = Inr False)"
      and "i \<le> n"
  shows "walk_regular env e c os rule dt i = walk_regular env e c os rule dt n"
  using assms
proof (induction "n - i" arbitrary: i)
  case 0
  then show ?case by simp
next
  case (Suc k)
  then have "i < n" by simp
  with Suc.prems obtain d where d: "rule i = Some d" "py_gt env d dt = Inr False" by auto
  have "walk_regular env e c os rule dt (Suc i) = walk_regular env e c os rule dt n"
    using Suc by (intro Suc.hyps(1)) auto
  then show ?case using d by (subst walk_regular.simps) simp
qed

lemma walk_regular_stops:
  assumes "walk_regular env e c os rule dt i = Some y"
  shows "\<exists>j\<ge>i. \<not> (\<exists>d. rule j = Some d \<and> py_gt env d dt = Inr False)"
proof (rule walk_regular.raw_induct
    [where P = "\<lambda>env e c os rule dt i y.
                  \<exists>j\<ge>i. \<not> (\<exists>d. rule j = Some d \<and> py_gt env d dt = Inr False)",
     OF _ assms], goal_cases)
  case (1 walk env e c os rule dt i y)
  show ?case
  proof (cases "\<exists>d. rule i = Some d \<and> py_gt env d dt = Inr False")
    case False
    then show ?thesis by (intro exI [of _ i]) simp
  next
    case True
    then obtain d where d: "rule i = Some d" "py_gt env d dt = Inr False" by blast
    have "walk env e c os rule dt (Suc i) = Some y"
      using 1(2) by (simp add: d)
    from 1(1) [OF this] obtain j where "Suc i \<le> j"
      "\<not> (\<exists>d. rule j = Some d \<and> py_gt env d dt = Inr False)" by blast
    then show ?thesis by (intro exI [of _ j]) simp
  qed
qed

lemma walk_regular_never:
  assumes "\<forall>j\<ge>i. \<exists>d. rule j = Some d \<and> py_gt env d dt = Inr False"
  shows "walk_regular env e c os rule dt i = None"
proof (cases "walk_regular env e c os rule dt i")
  case None
  then show ?thesis .
next
  case (Some y)
  from walk_regular_stops [OF this] assms show ?thesis by blast
qed

lemma walk_regular_plain:
  "walk_regular env e None [] rule dt n =
     (case rule n of
        None \<Rightarrow> Some (Inr (None, None))
      | Some d \<Rightarrow>
          (case py_gt env d dt of
             Inl err \<Rightarrow> Some (Inl err)
           | Inr later \<Rightarrow>
               if later then Some (Inr (Some d, Some e))
               else walk_regular env e None [] rule dt (Suc n)))"
  by (subst walk_regular.simps)
     (simp add: candidate_result_def py_in_def split: option.splits sum.splits)

lemma find_next_occurrence_plain:
  assumes "exceptions e = []" and "is_declined e = Inr False"
  shows "find_next_occurrence env e instances after_dt =
           walk_regular env e None [] instances (ensure_datetime after_dt) 0"
  using assms by (simp add: find_next_occurrence_def exception_candidates_def)

lemma next_occurrence_plain:
  assumes "exceptions e = []"
      and "is_declined_by_me e = Inr False"
      and "is_declined_by_others e = Inr False"
      and "get_recurrence env e = Inr (Some text)"
      and "start env e = Inr s"
      and "rrulestr env text (ensure_datetime s) = Inr rule"
  shows "next_occurrence env e after =
           map_option (\<lambda>found. bind found (normalized env s))
             (walk_regular env e None []
                (\<lambda>i. map_option (rule_instance (ensure_datetime s)) (rule i))
                (ensure_datetime (datetime_as env after s)) 0)"
proof -
  have decl: "is_declined e = Inr False"
    using assms(2,3) is_declined_both by fastforce
  have rr: "get_rrule env e =
              Inr (Some (\<lambda>i. map_option (rule_instance (ensure_datetime s)) (rule i)))"
    using assms(4,5,6) by (simp add: get_rrule_def)
  show ?thesis
    by (simp add: next_occurrence_def assms(5) rr find_next_occurrence_plain [OF assms(1) decl])
qed

lemma start_shape:
  assumes "start env e = Inr s"
  shows "(\<exists>d0. s = Date d0) \<or> (\<exists>w0 tz fd. s = Aware w0 tz fd)"
proof -
  have z: "\<exists>w0 tz fd. to_zone env t z = Aware w0 tz fd" for t z
  proof (cases z)
    case None
    with tz_fromutc_aware [of env "Fixed (local_offset_at env t)" t] show ?thesis
      by (auto simp: to_zone_def)
  next
    case (Some a)
    with tz_fromutc_aware [of env a t] show ?thesis
      by (auto simp: to_zone_def)
  qed
  from assms obtain rs where rs: "parse_start env e rs = Inr s"
    by (auto simp: start_def split: option.splits)
  show ?thesis
  proof (cases "rt_date rs")
    case (Some d)
    with rs show ?thesis by (auto simp: parse_start_def)
  next
    case None
    with rs obtain t where "rt_dateTime rs = Some t"
      by (auto simp: parse_start_def split: option.splits)
    with None rs z [of t "get_timezone env e rs"] show ?thesis
      by (auto simp: parse_start_timed)
  qed
qed



subsection \<open>The search on a timed series\<close>

lemmas series_defs = daily_with_override_def allday_with_cancelled_def allday_with_moved_def
  with_exception_def instance_of_series_def declined_by_me_def daily_series_def daily_allday_def

lemmas run_defs = next_occurrence_def get_rrule_def get_recurrence_def find_next_occurrence_def
  exception_candidates_def normalized_def is_declined_def is_excluded_def is_cancelled_def
  get_original_start_def fix_utc_def candidate_result_def py_in_def py_gt_def sample_env_def
  sample_offset_def sample_rule_def response_of_def to_zone_def utc_of_def fold_matters_def
  text_of_def six_days_def walk_regular.simps

text \<open>
  Two aware datetimes of one zone are ordered by their wall-clock times, whatever
  their offsets and their folds: in the hour that a zone repeats, the later instant
  can be the smaller datetime.
\<close>

lemma aware_same_zone_order:
  "py_lt env (Aware a z fa) (Aware b z fb) = Inr (a < b)
   \<and> py_le env (Aware a z fa) (Aware b z fb) = Inr (a \<le> b)
   \<and> py_gt env (Aware a z fa) (Aware b z fb) = Inr (b < a)
   \<and> py_eq env (Aware a z fa) (Aware b z fb) = (a = b)"
  by (simp add: py_gt_def)

text \<open>
  The example of the spec on a timed series: daily at 15:00 from 2024-01-01, the
  instance of 2024-01-03 moved to 2024-01-04 at 15:00. After the instance of
  2024-01-02 the next occurrence is the moved instance, not the slot of 2024-01-03.
  When the series is declined by the user, the moved instance, which is not declined,
  is returned as well.
\<close>

lemma rescheduled_instance_returned:
  "next_occurrence sample_env daily_with_override (Aware 1704200400 (Fixed 0) False) =
     Some (Inr (Some (Aware 1704380400 (TZ ''Europe/Sofia'') False),
          Some (instance_of_series ''x'' ''confirmed'' (at_1500 19725) (at_1500 19726))))"
  by (simp add: series_defs event_defs run_defs)

lemma declined_series_instance_returned:
  "next_occurrence sample_env (declined_by_me daily_with_override)
       (Aware 1704200400 (Fixed 0) False) =
     Some (Inr (Some (Aware 1704380400 (TZ ''Europe/Sofia'') False),
          Some (instance_of_series ''x'' ''confirmed'' (at_1500 19725) (at_1500 19726))))"
  by (simp add: series_defs event_defs run_defs)

subsection \<open>The search on an all-day series\<close>

text \<open>
  On an all-day series the starts and original starts of the exceptions are \<open>date\<close>
  objects, while the rule generates \<open>datetime\<close> objects. No date equals a datetime, a
  date cannot be ordered against a datetime, and a date has no method \<open>date()\<close>.
\<close>

text \<open>
  C1: for a series that is not declined, the search is to skip the instants of the rule
  that an exception overrides and to return the exception candidate once an instant
  reaches its start. On the all-day daily series from 2024-01-01 it does neither: with
  the instance of 2024-01-03 cancelled, the next occurrence after 2024-01-02 is the
  overridden slot 2024-01-03 with the master; with that instance moved to 2024-01-05
  instead, the same call raises TypeError.
\<close>

theorem allday_overridden_slot_returned:
  "get_original_start sample_env
       (instance_of_series ''x'' ''cancelled'' (on_day 19725) (on_day 19725)) =
     Inr (Date 19725)
   \<and> next_occurrence sample_env allday_with_cancelled (Date 19724) =
       Some (Inr (Some (Date 19725), Some allday_with_cancelled))
   \<and> next_occurrence sample_env allday_with_moved (Date 19724) = Some (Inl TypeError)"
  by (simp add: series_defs event_defs run_defs)

lemma six_days_rule:
  "get_rrule sample_env (declined_by_me allday_with_moved) = Inr (Some six_days)"
  by (simp add: series_defs event_defs get_rrule_def get_recurrence_def fix_utc_def
        sample_env_def sample_rule_def text_of_def six_days_def fun_eq_iff)

text \<open>
  C3: for a series that is declined, \<open>next_occurrence\<close> is to return the earliest
  exception instance that qualifies. On the all-day daily series from 2024-01-01,
  declined by the user, with the instance of 2024-01-03 moved to 2024-01-05 and not
  declined, the call after 2024-01-02 raises AttributeError instead of returning that
  instance. \<open>six_days\<close> is the rule of the series, six datetimes from its first midnight.
\<close>

theorem allday_declined_series_raises:
  "is_declined_by_me (declined_by_me allday_with_moved) = Inr True
   \<and> find_next_occurrence sample_env (declined_by_me allday_with_moved) six_days (Date 19724) =
       Some (Inr (Some (Date 19727),
            Some (instance_of_series ''x'' ''confirmed'' (on_day 19725) (on_day 19727))))
   \<and> next_occurrence sample_env (declined_by_me allday_with_moved) (Date 19724) =
       Some (Inl AttributeError)"
  by (simp add: series_defs event_defs run_defs)

subsection \<open>The UNTIL bound of an all-day series\<close>

text \<open>
  The calendar: months run from 1 to 12 and days from 1 to 31, so a date is written
  with two digits of month and two of day after its year.
\<close>

lemma month_day_of_year:
  assumes n: "0 \<le> n" "n \<le> 364"
  shows "(let month = (n + 50) div 32; preceding = month_offset leap month
          in if preceding > n
             then 1 \<le> month - 1 \<and> month - 1 \<le> 12
                  \<and> 1 \<le> n - (preceding - month_length leap (month - 1)) + 1
                  \<and> n - (preceding - month_length leap (month - 1)) + 1 \<le> 31
             else 1 \<le> month \<and> month \<le> 12 \<and> 1 \<le> n - preceding + 1 \<and> n - preceding + 1 \<le> 31)"
proof -
  define month where "month = (n + 50) div 32"
  have b: "32 * month \<le> n + 50" "n + 50 < 32 * month + 32"
    unfolding month_def by presburger+
  with n have "1 \<le> month" "month \<le> 12" by linarith+
  then consider "month = 1" | "month = 2" | "month = 3" | "month = 4" | "month = 5" | "month = 6"
    | "month = 7" | "month = 8" | "month = 9" | "month = 10" | "month = 11" | "month = 12"
    by atomize_elim presburger
  then show ?thesis
    unfolding Let_def month_def [symmetric]
    using b n by cases (auto simp: month_offset_def month_length_def)
qed

lemma ord2ymd_month_day:
  assumes a: "ord2ymd k = (y, m, d)"
  shows "1 \<le> m \<and> m \<le> 12 \<and> 1 \<le> d \<and> d \<le> 31"
proof -
  define n100 where "n100 = (k - 1) mod 146097 div 36524"
  define n4 where "n4 = (k - 1) mod 146097 mod 36524 div 1461"
  define n1 where "n1 = (k - 1) mod 146097 mod 36524 mod 1461 div 365"
  define n where "n = (k - 1) mod 146097 mod 36524 mod 1461 mod 365"
  define leap where "leap = (n1 = 3 \<and> (n4 \<noteq> 24 \<or> n100 = 3))"
  define month where "month = (n + 50) div 32"
  define preceding where "preceding = month_offset leap month"
  define year where "year = (k - 1) div 146097 * 400 + 1 + n100 * 100 + n4 * 4 + n1"
  have n: "0 \<le> n" "n \<le> 364" unfolding n_def by simp_all
  have unfolded: "ord2ymd k =
      (if n1 = 4 \<or> n100 = 4 then (year - 1, 12, 31)
       else if preceding > n
            then (year, month - 1, n - (preceding - month_length leap (month - 1)) + 1)
            else (year, month, n - preceding + 1))"
    unfolding ord2ymd_def Let_def n100_def n4_def n1_def n_def leap_def month_def
      preceding_def year_def ..
  note md = month_day_of_year [OF n, of leap, unfolded Let_def,
      folded month_def, folded preceding_def]
  show ?thesis
  proof (cases "n1 = 4 \<or> n100 = 4")
    case True
    with a unfolded show ?thesis by simp
  next
    case False
    show ?thesis
    proof (cases "preceding > n")
      case True
      with False a unfolded have "m = month - 1"
        "d = n - (preceding - month_length leap (month - 1)) + 1" by auto
      with md True show ?thesis by simp
    next
      case f: False
      with False a unfolded have "m = month" "d = n - preceding + 1" by auto
      with md f show ?thesis by simp
    qed
  qed
qed

lemma text_of_append [simp]: "text_of (a @ b) = text_of a @ text_of b"
  by (simp add: text_of_def)

lemma length_text_of [simp]: "length (text_of s) = length s"
  by (simp add: text_of_def)

lemma digit_char_is_digit: "n < 10 \<Longrightarrow> is_digit env (of_char (digit_char n))"
proof -
  assume "n < 10"
  then consider "n = 0" | "n = 1" | "n = 2" | "n = 3" | "n = 4" | "n = 5" | "n = 6" | "n = 7"
    | "n = 8" | "n = 9" by atomize_elim presburger
  then show ?thesis by cases (simp_all add: digit_char_def is_digit_def decimal_def)
qed

lemma str_nat_step: "10 \<le> n \<Longrightarrow> str_nat n = str_nat (n div 10) @ [digit_char (n mod 10)]"
  by (subst str_nat.simps) simp

lemma str_nat_digits: "list_all (is_digit env) (text_of (str_nat n))"
proof (induction n rule: str_nat.induct)
  case (1 n)
  show ?case
  proof (cases "n < 10")
    case True
    then show ?thesis by (simp add: digit_char_is_digit text_of_def)
  next
    case False
    with 1 show ?thesis
      by (subst str_nat.simps) (simp add: digit_char_is_digit text_of_def)
  qed
qed

lemma str_nat_length1: "n < 10 \<Longrightarrow> length (str_nat n) = 1"
  by simp

lemma str_nat_length2: "10 \<le> n \<Longrightarrow> n < 100 \<Longrightarrow> length (str_nat n) = 2"
  by (simp add: str_nat_step)

lemma str_nat_length3: "100 \<le> n \<Longrightarrow> n < 1000 \<Longrightarrow> length (str_nat n) = 3"
proof -
  assume a: "100 \<le> n" "n < 1000"
  then have "10 \<le> n div 10" "n div 10 < 100" by linarith+
  then show ?thesis using a
    by (simp add: str_nat_step [of n] str_nat_length2 del: str_nat.simps)
qed

lemma str_nat_length4: "1000 \<le> n \<Longrightarrow> n < 10000 \<Longrightarrow> length (str_nat n) = 4"
proof -
  assume a: "1000 \<le> n" "n < 10000"
  then have "100 \<le> n div 10" "n div 10 < 1000" by linarith+
  then show ?thesis using a
    by (simp add: str_nat_step [of n] str_nat_length3 del: str_nat.simps)
qed

lemma pad2_digits:
  assumes "1 \<le> i" "i \<le> 31"
  shows "length (pad2 i) = 2 \<and> list_all (is_digit env) (text_of (pad2 i))"
proof (cases "i < 10")
  case True
  with assms have "nat i < 10" by simp
  moreover have "is_digit env (of_char CHR ''0'')" by (simp add: is_digit_def decimal_def)
  ultimately show ?thesis using assms True
    by (simp add: pad2_def str_int_def Let_def digit_char_is_digit text_of_def)
next
  case False
  with assms have "10 \<le> nat i" "nat i < 100" by simp_all
  with assms False show ?thesis
    by (simp add: pad2_def str_int_def Let_def str_nat_length2 str_nat_digits del: str_nat.simps)
qed

lemma date_text_digits:
  assumes "1 \<le> y" "y \<le> 9999" "1 \<le> m" "m \<le> 12" "1 \<le> d" "d \<le> 31"
  shows "list_all (is_digit env) (text_of (str_int y @ pad2 m @ pad2 d))
         \<and> length (pad2 m) = 2 \<and> length (pad2 d) = 2
         \<and> (1000 \<le> y \<longrightarrow> length (str_int y @ pad2 m @ pad2 d) = 8)
         \<and> (y < 1000 \<longrightarrow> length (str_int y @ pad2 m @ pad2 d) < 8)"
proof -
  have yd: "list_all (is_digit env) (text_of (str_int y))"
    using assms(1) by (simp add: str_int_def str_nat_digits del: str_nat.simps)
  have y4: "1000 \<le> y \<longrightarrow> length (str_int y) = 4"
    using assms(2) by (simp add: str_int_def str_nat_length4 del: str_nat.simps)
  have y3: "y < 1000 \<longrightarrow> length (str_int y) < 4"
  proof
    assume "y < 1000"
    with assms(1) consider "nat y < 10" | "10 \<le> nat y \<and> nat y < 100"
      | "100 \<le> nat y \<and> nat y < 1000" by atomize_elim linarith
    then have "length (str_nat (nat y)) < 4"
      by cases (simp_all add: str_nat_length1 str_nat_length2 str_nat_length3 del: str_nat.simps)
    with assms(1) show "length (str_int y) < 4" by (simp add: str_int_def del: str_nat.simps)
  qed
  have "m \<le> 31" using assms(4) by simp
  from yd y4 y3 pad2_digits [OF assms(3) this, of env] pad2_digits [OF assms(5,6), of env]
  show ?thesis by simp
qed

text \<open>The pattern, \<open>re.search\<close> and \<open>re.sub\<close>.\<close>

lemma until_match_Some:
  "until_match env s = Some g \<Longrightarrow> s = text_of ''UNTIL='' @ g @ drop 22 s \<and> length g = 16"
proof -
  assume a: "until_match env s = Some g"
  then have g: "g = take 16 (drop 6 s)" "take 6 s = text_of ''UNTIL=''" "length g = 16"
    by (auto simp: until_match_def Let_def split: if_splits)
  have 1: "take 6 s @ drop 6 s = s" by (rule append_take_drop_id)
  have 2: "take 16 (drop 6 s) @ drop 16 (drop 6 s) = drop 6 s" by (rule append_take_drop_id)
  have 3: "drop 16 (drop 6 s) = drop 22 s" by simp
  have "s = text_of ''UNTIL='' @ g @ drop 22 s"
    using 1 2 unfolding 3 g(1) [symmetric] g(2) by simp
  with g(3) show ?thesis by simp
qed

lemma re_search_Some:
  "re_search env line = Some tok \<Longrightarrow>
     \<exists>pre post. line = pre @ text_of ''UNTIL='' @ tok @ post
                \<and> (\<forall>repl. re_sub env repl line = pre @ repl @ re_sub env repl post)"
proof (induction line)
  case Nil
  then show ?case by simp
next
  case (Cons c cs)
  show ?case
  proof (cases "until_match env (c # cs)")
    case None
    with Cons.prems have "re_search env cs = Some tok" by simp
    from Cons.IH [OF this] obtain pre post where
      p: "cs = pre @ text_of ''UNTIL='' @ tok @ post"
         "\<forall>repl. re_sub env repl cs = pre @ repl @ re_sub env repl post"
      by blast
    have "c # cs = (c # pre) @ text_of ''UNTIL='' @ tok @ post" using p(1) by simp
    moreover have "\<forall>repl. re_sub env repl (c # cs) = (c # pre) @ repl @ re_sub env repl post"
      using None p(2) by simp
    ultimately show ?thesis by blast
  next
    case (Some g)
    with Cons.prems have tok: "tok = g" by simp
    from until_match_Some [OF Some]
    have "c # cs = [] @ text_of ''UNTIL='' @ tok @ drop 21 cs" using tok by simp
    moreover have "\<forall>repl. re_sub env repl (c # cs) = [] @ repl @ re_sub env repl (drop 21 cs)"
      using Some by simp
    ultimately show ?thesis by blast
  qed
qed

lemma re_sub_no_match: "re_search env s = None \<Longrightarrow> re_sub env repl s = s"
  by (induction s) (auto split: option.splits)

lemma contains_prefix: "contains needle (needle @ rest)"
proof (cases "needle @ rest")
  case Nil
  then show ?thesis by simp
next
  case (Cons c cs)
  have "take (length needle) (needle @ rest) = needle" by simp
  then show ?thesis unfolding Cons by simp
qed

lemma contains_append: "contains needle (pre @ needle @ rest)"
proof (induction pre)
  case Nil
  show ?case using contains_prefix [of needle rest] by simp
next
  case (Cons c pre)
  then show ?case by simp
qed

lemma re_search_contains: "re_search env line = Some tok \<Longrightarrow> contains (text_of ''UNTIL'') line"
proof -
  assume "re_search env line = Some tok"
  from re_search_Some [OF this] obtain pre post where
    "line = pre @ text_of ''UNTIL='' @ tok @ post" by auto
  then have "line = pre @ text_of ''UNTIL'' @ (of_char CHR ''='' # tok @ post)"
    by (simp add: text_of_def)
  then show ?thesis using contains_append [of "text_of ''UNTIL''" pre] by simp
qed

text \<open>The steps of \<open>fix_utc\<close> on a line that the pattern matches.\<close>

lemma parse_shape:
  "(\<exists>err. parse env tok = Inl err) \<or> (\<exists>t. parse env tok = Inr (Aware t (Fixed 0) False))"
  by (simp add: parse_def Let_def)

lemma local_date_run:
  "bind (astimezone env (Aware t (Fixed 0) False)
           (gettz env (default_timezone (google_calendar e)))) date_method =
     Inr (local_date env e t)"
  by (simp add: gettz_def to_zone_def utc_of_def local_date_def split: prod.splits)

lemma fix_utc_steps:
  assumes "contains (text_of ''RRULE'') line" and "re_search env line = Some tok"
  shows "fix_utc env e line =
           bind (parse env tok) (\<lambda>dt.
           bind (bind (astimezone env dt (gettz env (default_timezone (google_calendar e))))
                   date_method) (\<lambda>new_end.
           bind (ymd_of new_end) (\<lambda>(y, m, d).
             Inr (re_sub env (text_of (''UNTIL='' @ str_int y @ pad2 m @ pad2 d)) line))))"
  using assms re_search_contains [OF assms(2)]
  by (simp add: fix_utc_def bind_def split: sum.splits)

lemma fix_utc_rewrite:
  assumes "contains (text_of ''RRULE'') line" and "re_search env line = Some tok"
      and "parse env tok = Inr (Aware t (Fixed 0) False)"
      and "ymd_of (local_date env e t) = Inr (y, m, d)"
  shows "fix_utc env e line =
           Inr (re_sub env (text_of (''UNTIL='' @ str_int y @ pad2 m @ pad2 d)) line)"
  unfolding fix_utc_steps [OF assms(1,2)] assms(3) bind_Inr local_date_run assms(4)
  by simp

lemma fix_utc_raises:
  assumes "contains (text_of ''RRULE'') line" and "re_search env line = Some tok"
  shows "parse env tok = Inl err \<Longrightarrow> fix_utc env e line = Inl err"
    and "parse env tok = Inr (Aware t (Fixed 0) False) \<Longrightarrow>
         ymd_of (local_date env e t) = Inl err \<Longrightarrow> fix_utc env e line = Inl err"
proof -
  show "parse env tok = Inl err \<Longrightarrow> fix_utc env e line = Inl err"
    unfolding fix_utc_steps [OF assms] by simp
  assume p: "parse env tok = Inr (Aware t (Fixed 0) False)"
    and y: "ymd_of (local_date env e t) = Inl err"
  show "fix_utc env e line = Inl err"
    unfolding fix_utc_steps [OF assms] p bind_Inr local_date_run y by simp
qed

lemma ymd_of_range:
  "ymd_of x = Inr (y, m, d) \<Longrightarrow>
     1 \<le> y \<and> y \<le> 9999 \<and> 1 \<le> m \<and> m \<le> 12 \<and> 1 \<le> d \<and> d \<le> 31"
proof (cases x)
  case (Date k)
  assume a: "ymd_of x = Inr (y, m, d)"
  obtain y' m' d' where o: "ord2ymd (k + 719163) = (y', m', d')"
    by (cases "ord2ymd (k + 719163)")
  with a Date have "y' = y" "m' = m" "d' = d" "1 \<le> y" "y \<le> 9999"
    by (auto split: if_splits)
  with ord2ymd_month_day [OF o] show ?thesis by simp
qed simp_all

lemma day_of_2024_06_14:
  "1718323200 \<le> (w::int) \<Longrightarrow> w < 1718409600 \<Longrightarrow> w div 86400 = 19888"
proof -
  assume b: "1718323200 \<le> w" "w < 1718409600"
  have "w div 86400 = ((w - 1718323200) + 19888 * 86400) div 86400" by simp
  also have "\<dots> = 19888 + (w - 1718323200) div 86400" by (rule div_mult_self1) simp
  also have "(w - 1718323200) div 86400 = 0" using b by (simp add: div_pos_pos_trivial)
  finally show ?thesis by simp
qed

lemma ymd_of_2024_06_14: "ymd_of (Date 19888) = Inr (2024, 6, 14)"
  by (simp add: ord2ymd_def month_offset_def month_length_def)

lemmas calendar_defs = parse_def number_def digit_val_def decimal_def text_of_def ymd2ord_def
  days_before_year_def days_before_month_def days_in_month_def month_offset_def
  month_length_def is_leap_def

lemma parse_2024_06_15:
  "parse env (text_of ''20240615T000000Z'') = Inr (Aware 1718409600 (Fixed 0) False)"
  by (simp add: calendar_defs)

lemma fix_utc_new_york:
  assumes "default_timezone (google_calendar e) = ''America/New_York''"
      and "zone_known env ''America/New_York''"
      and "1718323200 \<le> fst (fromutc env ''America/New_York'' 1718409600)"
      and "fst (fromutc env ''America/New_York'' 1718409600) < 1718409600"
  shows "fix_utc env e (text_of ''RRULE:FREQ=WEEKLY;UNTIL=20240615T000000Z'') =
           Inr (text_of ''RRULE:FREQ=WEEKLY;UNTIL=20240614'')"
proof -
  let ?line = "text_of ''RRULE:FREQ=WEEKLY;UNTIL=20240615T000000Z''"
  have c: "contains (text_of ''RRULE'') ?line" by (simp add: text_of_def)
  have r: "re_search env ?line = Some (text_of ''20240615T000000Z'')"
    by (simp add: until_match_def is_digit_def decimal_def text_of_def)
  have "local_date env e 1718409600 = Date 19888"
    using assms(1,2) day_of_2024_06_14 [OF assms(3,4)] by (simp add: local_date_def)
  then have y: "ymd_of (local_date env e 1718409600) = Inr (2024, 6, 14)"
    by (simp only: ymd_of_2024_06_14)
  have s: "re_sub env (text_of (''UNTIL='' @ str_int 2024 @ pad2 6 @ pad2 14)) ?line =
             text_of ''RRULE:FREQ=WEEKLY;UNTIL=20240614''"
    by (simp add: until_match_def is_digit_def decimal_def str_int_def pad2_def digit_char_def
          text_of_def)
  from fix_utc_rewrite [OF c r parse_2024_06_15 y] s show ?thesis by simp
qed

lemma fix_utc_unchanged:
  "\<not> contains (text_of ''RRULE'') line \<or> \<not> contains (text_of ''UNTIL'') line \<Longrightarrow>
     fix_utc env e line = Inr line"
  by (auto simp: fix_utc_def)

lemma fix_utc_no_match: "re_search env line = None \<Longrightarrow> fix_utc env e line = Inr line"
  by (simp add: fix_utc_def)

lemma get_recurrence_allday:
  "start env e = Inr (Date d0) \<Longrightarrow> raw_recurrence (raw e) = Some lines \<Longrightarrow>
     get_recurrence env e = bind (map_err (fix_utc env e) lines) (\<lambda>r. Inr (Some (join_lines r)))"
  by (simp add: get_recurrence_def)

lemma get_recurrence_timed:
  "start env e = Inr s \<Longrightarrow> \<not> is_allday s \<Longrightarrow> raw_recurrence (raw e) = Some lines \<Longrightarrow>
     get_recurrence env e = Inr (Some (join_lines lines))"
  by (simp add: get_recurrence_def)




end
